theory Spec2Isabelle
  imports Main "HOL-Library.Char_ord" "HOL-Library.List_Lexorder"
begin

section \<open>Strings, errors and trace entries\<close>

text \<open>
  Braille output and the codec work on Python \<open>str\<close> values whose characters are Unicode
  code points (the braille cells are U+2800 .. U+283F), so such a string is a list of code
  points.  Attribute values and table keys that are plain ASCII identifiers in the source
  (\<open>'staccato'\<close>, \<open>'quarter'\<close>, a fingering such as \<open>'2,1'\<close>) are HOL strings.
\<close>

type_synonym uchar = nat
type_synonym ustring = "uchar list"

text \<open>The exceptions the module raises or lets through.\<close>

datatype error = KeyError | IndexError | AttributeError | ValueError | BrailleBasicException

text \<open>
  An entry of \<open>_brailleEnglish\<close> is the result of \<open>template.format(args)\<close>.  The entry
  keeps the template of the source and its arguments; the rendering to text is not needed by
  any encoder (the trace is only written).  \<open>TObj\<close> stands for a host object printed by its
  own \<open>__str__\<close>.
\<close>

datatype targ = TStr string | TBraille ustring | TInt int | TNone | TObj | TEntries "(string \<times> targ list) list"

type_synonym entry = "string \<times> targ list"

section \<open>The host objects the encoders read\<close>

record Accidental =
  acc_name :: string
  displayStatus :: "bool option"

record Pitch =
  step :: string
  octave :: "int option"
  accidental :: "Accidental option"

record Duration =
  dur_type :: string
  dots :: nat
  tuplets :: "string list"
  isGrace :: bool

text \<open>
  \<open>brailleEnglish = None\<close> is an object on which the attribute \<open>_brailleEnglish\<close> was
  never set.  In \<open>Duration\<close>, \<open>tuplets\<close> holds the \<open>fullName\<close> of each tuplet and
  \<open>isGrace\<close> is \<open>'GraceDuration' in duration.classes\<close>.  In \<open>Note\<close>, \<open>articulations\<close>
  holds the \<open>name\<close> of each articulation, \<open>tie\<close> the \<open>type\<close> of the tie, and an absent
  optional attribute (\<open>fingering\<close>, the seven slur and beam flags) is \<open>None\<close>.
\<close>

record Music21Object =
  brailleEnglish :: "entry list option"

record Note = Music21Object +
  pitch :: Pitch
  duration :: Duration
  articulations :: "string list"
  fingering :: "string option"
  tie :: "string option"
  beginLongBracketSlur :: "bool option"
  endLongBracketSlur :: "bool option"
  beginLongDoubleSlur :: "bool option"
  endLongDoubleSlur :: "bool option"
  shortSlur :: "bool option"
  beamStart :: "bool option"
  beamContinue :: "bool option"

record KeySignature = Music21Object +
  sharps :: int

text \<open>
  A chord holds its member notes (\<open>_notes\<close>); \<open>pitches\<close> is the list of their pitches.
  A clef carries its class name and the answers of the three \<open>isinstance\<close> tests the encoder
  makes; \<open>sign\<close> may be \<open>None\<close>.  A time signature may lack \<open>symbol\<close>.
\<close>

record Rest = Music21Object +
  rest_duration :: Duration

record Chord = Music21Object +
  chord_notes :: "Note list"
  chord_duration :: Duration

record Dynamic = Music21Object +
  dyn_value :: string

record TextExpression = Music21Object +
  te_content :: string

record Barline = Music21Object +
  bar_style :: string

record Clef = Music21Object +
  clef_className :: string
  clef_isNoClef :: bool
  clef_isTrebleClef :: bool
  clef_isBassClef :: bool
  clef_sign :: "string option"
  clef_line :: int

record TimeSignature = Music21Object +
  ts_symbol :: "string option"
  ts_numerator :: int
  ts_denominator :: int

text \<open>
  The elements of a grouping, by the \<open>isinstance\<close> test that selects the encoder; \<open>EOther\<close>
  is an element of any other class.
\<close>

datatype element =
    ENote Note
  | ERest Rest
  | EChord Chord
  | EDynamic Dynamic
  | ETextExpression TextExpression
  | EBarline Barline
  | EClef Clef
  | EOther Music21Object

text \<open>
  A grouping: its elements in order and the three options, each of which may be missing
  (\<open>None\<close>: reading it raises \<open>AttributeError\<close>).
\<close>

record Grouping =
  elements :: "element list"
  descendingChords :: "bool option"
  showClefSigns :: "bool option"
  upperFirstInNoteFingering :: "bool option"

text \<open>
  The host's interval and pitch arithmetic (\<open>music21.interval\<close>, \<open>music21.pitch\<close>) is
  consumed as a value provider: \<open>genericUndirected H p q\<close> is
  \<open>interval.notesToInterval(p, q).generic.undirected\<close> and \<open>ps H\<close> is the key by which
  \<open>sorted\<close> orders pitches.
\<close>

record host =
  genericUndirected :: "Pitch \<Rightarrow> Pitch \<Rightarrow> nat"
  ps :: "Pitch \<Rightarrow> int"

section \<open>The lookup tables\<close>

text \<open>
  \<open>music21.braille.lookup\<close> is an injected constant resource; every table is a parameter.
  A dictionary is a partial map.  \<open>symbols\<close> is read with literal keys, so each literal key
  the source uses is a field; \<open>sym_named\<close> is the dictionary as the one lookup by a computed
  key sees it (\<open>symbols[music21TimeSignature.symbol]\<close>).
  \<open>ascii_chars\<close> is kept as its item list, since \<open>brailleAsciiToBrailleUnicode\<close> iterates
  over it.
\<close>

record symbols =
  sym_basic_exception :: ustring
  sym_dot :: ustring
  sym_word :: ustring
  sym_space :: ustring
  sym_triplet :: ustring
  sym_tie :: ustring
  sym_opening_bracket_slur :: ustring
  sym_closing_bracket_slur :: ustring
  sym_opening_double_slur :: ustring
  sym_closing_double_slur :: ustring
  sym_opening_single_slur :: ustring
  sym_finger_change :: ustring
  sym_first_set_missing_fingermark :: ustring
  sym_second_set_missing_fingermark :: ustring
  sym_uppercase :: ustring
  sym_number :: ustring
  sym_named :: "string \<rightharpoonup> ustring"

record tables =
  accidentals :: "string \<rightharpoonup> ustring"
  alphabet :: "char \<rightharpoonup> ustring"
  ascii_chars :: "(uchar \<times> uchar) list"
  barlines :: "string \<rightharpoonup> ustring"
  beatUnits :: "int \<rightharpoonup> ustring"
  beforeNoteExpr :: "string \<rightharpoonup> ustring"
  clefs_prefix :: ustring
  clefs_sign :: "string \<rightharpoonup> (int \<rightharpoonup> ustring)"
  clefs_suffix :: "bool \<Rightarrow> ustring"
  fingerMarks :: "string \<rightharpoonup> ustring"
  intervals :: "nat \<rightharpoonup> ustring"
  keySignatures :: "int \<rightharpoonup> ustring"
  naturals :: "int \<rightharpoonup> ustring"
  numbers :: "nat \<rightharpoonup> ustring"
  octaves :: "int \<rightharpoonup> ustring"
  pitchNameToNotes :: "string \<rightharpoonup> (string \<rightharpoonup> ustring)"
  rests :: "string \<rightharpoonup> ustring"
  symbols :: symbols
  textExpressions :: "string \<rightharpoonup> ustring"
  binary_dots :: "uchar \<rightharpoonup> (string \<times> string \<times> string)"

text \<open>Appending to, and inserting at the front of, the trace of an object.\<close>

definition trace_append :: "entry list \<Rightarrow> ('a Music21Object_scheme) \<Rightarrow> ('a Music21Object_scheme)" where
  "trace_append es obj = obj\<lparr>brailleEnglish := Some ((case brailleEnglish obj of None \<Rightarrow> [] | Some t \<Rightarrow> t) @ es)\<rparr>"

definition trace_insert0 :: "entry \<Rightarrow> ('a Music21Object_scheme) \<Rightarrow> ('a Music21Object_scheme)" where
  "trace_insert0 e obj = obj\<lparr>brailleEnglish := Some (e # (case brailleEnglish obj of None \<Rightarrow> [] | Some t \<Rightarrow> t))\<rparr>"

section \<open>Octave heuristic\<close>

definition showOctaveWithNote :: "host \<Rightarrow> ('a Note_scheme) option \<Rightarrow> ('b Note_scheme) \<Rightarrow> bool" where
  "showOctaveWithNote H previousNote currentNote =
    (case previousNote of
       None \<Rightarrow> True
     | Some p \<Rightarrow>
        (let g = genericUndirected H (pitch p) (pitch currentNote);
             isSixthOrGreater = (g \<ge> 6);
             isFourthOrFifth = (g = 4 \<or> g = 5);
             sameOctaveAsPrevious = (octave (pitch p) = octave (pitch currentNote));
             doShowOctave = False
         in if isSixthOrGreater \<or> (isFourthOrFifth \<and> \<not> sameOctaveAsPrevious) then True
            else doShowOctave))"

section \<open>Key signatures\<close>

text \<open>
  The comparison \<open>(outgoingSharps / absOutgoing) != (incomingSharps / absIncoming)\<close> is only
  evaluated when both counts are non-zero (\<open>or\<close> short-circuits), where each quotient is
  exactly 1 or -1; integer division gives the same value.
\<close>

definition keySigToBraille :: "tables \<Rightarrow> KeySignature \<Rightarrow> KeySignature option \<Rightarrow> ustring \<times> KeySignature" where
  "keySigToBraille L music21KeySignature outgoingKeySig =
    (let ks0 = music21KeySignature\<lparr>brailleEnglish := Some []\<rparr>;
         incomingSharps = sharps ks0
     in case keySignatures L incomingSharps of
          None \<Rightarrow>
            (sym_basic_exception (symbols L),
             trace_append [(''Key Signature {0} sharps None'', [TObj])] ks0)
        | Some ks_braille \<Rightarrow>
            (let ks1 = (if incomingSharps > 0
                        then trace_append [(''Key Signature {0} sharp(s) {1}'',
                                            [TInt incomingSharps, TBraille ks_braille])] ks0
                        else trace_append [(''Key Signature {0} flat(s) {1}'',
                                            [TInt \<bar>incomingSharps\<bar>, TBraille ks_braille])] ks0)
             in case outgoingKeySig of
                  None \<Rightarrow> (ks_braille, ks1)
                | Some out \<Rightarrow>
                    (let outgoingSharps = sharps out;
                         absOutgoing = \<bar>outgoingSharps\<bar>;
                         absIncoming = \<bar>incomingSharps\<bar>
                     in if incomingSharps = 0 \<or> outgoingSharps = 0
                           \<or> (outgoingSharps div absOutgoing) \<noteq> (incomingSharps div absIncoming)
                        then (case naturals L absOutgoing of
                                None \<Rightarrow> (ks_braille, trace_append [(''{0} naturals=None'', [TObj])] ks1)
                              | Some ns \<Rightarrow>
                                  (ns @ ks_braille,
                                   trace_insert0 (''Key Signature {0} naturals {1}'',
                                                  [TInt outgoingSharps, TBraille ns]) ks1))
                        else if absOutgoing \<ge> absIncoming
                        then (case naturals L \<bar>outgoingSharps - incomingSharps\<bar> of
                                None \<Rightarrow> (ks_braille, trace_append [(''{0} naturals=None'', [TObj])] ks1)
                              | Some ns \<Rightarrow>
                                  (ns @ ks_braille,
                                   trace_insert0 (''Key Signature {0} naturals {1}'',
                                                  [TInt outgoingSharps, TBraille ns]) ks1))
                        else (ks_braille, ks1))))"

section \<open>Note fingering\<close>

text \<open>\<open>str.split(sep)\<close> for a one-character separator: always at least one piece.\<close>

fun split_on :: "char \<Rightarrow> string \<Rightarrow> string list" where
  "split_on sep [] = [[]]"
| "split_on sep (c # cs) =
     (if c = sep then [] # split_on sep cs
      else (let r = split_on sep cs in (c # hd r) # tl r))"

text \<open>
  The body of the loop over \<open>choice\<close>: the glyphs appended to \<open>trans\<close> for the token at
  index \<open>i\<close>, or the \<open>KeyError\<close> that leaves the loop.
\<close>

definition fingerToken :: "tables \<Rightarrow> bool \<Rightarrow> nat \<Rightarrow> string \<Rightarrow> error + ustring list" where
  "fingerToken L allowAbsence i tok =
    (let change = split_on CHR ''-'' tok
     in if length change = 2 then
          (case fingerMarks L (change ! 0) of
             None \<Rightarrow> Inl KeyError
           | Some a \<Rightarrow>
              (case fingerMarks L (change ! 1) of
                 None \<Rightarrow> Inl KeyError
               | Some b \<Rightarrow> Inr [a, sym_finger_change (symbols L), b]))
        else if length change = 1 then
          (let changeMark = change ! 0
           in case fingerMarks L changeMark of
                Some m \<Rightarrow> Inr [m]
              | None \<Rightarrow>
                  if \<not> allowAbsence then Inl KeyError
                  else if i = 0 then Inr [sym_first_set_missing_fingermark (symbols L)]
                  else Inr [sym_second_set_missing_fingermark (symbols L)])
        else Inr [])"

fun fingerLoop :: "tables \<Rightarrow> bool \<Rightarrow> nat \<Rightarrow> string list \<Rightarrow> error + ustring list" where
  "fingerLoop L allowAbsence i [] = Inr []"
| "fingerLoop L allowAbsence i (tok # toks) =
     (case fingerToken L allowAbsence i tok of
        Inl e \<Rightarrow> Inl e
      | Inr xs \<Rightarrow>
         (case fingerLoop L allowAbsence (Suc i) toks of
            Inl e \<Rightarrow> Inl e
          | Inr ys \<Rightarrow> Inr (xs @ ys)))"

definition fingerChoice :: "tables \<Rightarrow> bool \<Rightarrow> bool \<Rightarrow> string list \<Rightarrow> error + ustring" where
  "fingerChoice L upperFirstInFingering allowAbsence choice =
    (let choice' = (if \<not> upperFirstInFingering then rev choice else choice)
     in case fingerLoop L allowAbsence 0 choice' of
          Inl KeyError \<Rightarrow> Inl BrailleBasicException
        | Inl e \<Rightarrow> Inl e
        | Inr trans' \<Rightarrow> Inr (concat trans'))"

definition transcribeNoteFingering :: "tables \<Rightarrow> string \<Rightarrow> bool \<Rightarrow> error + ustring" where
  "transcribeNoteFingering L sampleNoteFingering upperFirstInFingering =
    (if length sampleNoteFingering = 1 then
       (case fingerMarks L sampleNoteFingering of
          None \<Rightarrow> Inl BrailleBasicException
        | Some m \<Rightarrow> Inr m)
     else
       (let choice = split_on CHR '','' sampleNoteFingering
        in if length choice = 2 then fingerChoice L upperFirstInFingering True choice
           else if length choice = 1
           then fingerChoice L upperFirstInFingering False (split_on CHR ''|'' sampleNoteFingering)
           else Inl BrailleBasicException))"

section \<open>Translation between braille Unicode and braille ASCII\<close>

text \<open>
  \<open>d[k]\<close> on a dictionary, and a loop that collects one value per item and is left by the
  first exception.
\<close>

definition getitem :: "('k \<rightharpoonup> 'v) \<Rightarrow> 'k \<Rightarrow> error + 'v" where
  "getitem d k = (case d k of None \<Rightarrow> Inl KeyError | Some v \<Rightarrow> Inr v)"

fun mapE :: "('a \<Rightarrow> error + 'b) \<Rightarrow> 'a list \<Rightarrow> error + 'b list" where
  "mapE f [] = Inr []"
| "mapE f (x # xs) =
     (case f x of
        Inl e \<Rightarrow> Inl e
      | Inr y \<Rightarrow> (case mapE f xs of Inl e \<Rightarrow> Inl e | Inr ys \<Rightarrow> Inr (y # ys)))"

text \<open>
  \<open>str.splitlines()\<close>: the line boundaries of Python 3 are LF, VT, FF, CR, FS, GS, RS, NEL,
  LS and PS, with CR LF counted as one boundary; the boundaries are dropped and a final
  boundary does not open another line.  \<open>splitlines_from cr cur s\<close> reads \<open>s\<close> with the
  line \<open>cur\<close> open; \<open>cr\<close> says that the character just read was a CR.
\<close>

definition is_linebreak :: "uchar \<Rightarrow> bool" where
  "is_linebreak c = (c \<in> {0x0A, 0x0B, 0x0C, 0x0D, 0x1C, 0x1D, 0x1E, 0x85, 0x2028, 0x2029})"

fun splitlines_from :: "bool \<Rightarrow> ustring \<Rightarrow> ustring \<Rightarrow> ustring list" where
  "splitlines_from cr cur [] = (if cur = [] then [] else [cur])"
| "splitlines_from cr cur (c # cs) =
     (if cr \<and> c = 0x0A then splitlines_from False cur cs
      else if is_linebreak c then cur # splitlines_from (c = 0x0D) [] cs
      else splitlines_from False (cur @ [c]) cs)"

definition splitlines :: "ustring \<Rightarrow> ustring list" where
  "splitlines s = splitlines_from False [] s"

text \<open>\<open>sep.join(xs)\<close>.\<close>

fun join :: "'a list \<Rightarrow> 'a list list \<Rightarrow> 'a list" where
  "join sep [] = []"
| "join sep [x] = x"
| "join sep (x # y # ys) = x @ sep @ join sep (y # ys)"

text \<open>
  \<open>str.upper()\<close> of one character.  Only the ASCII range is modelled (the letters a to z);
  a code point outside it is left as it is, which is what Python does for the braille cells and
  for every ASCII character that is not a lower-case letter.
\<close>

definition upper :: "uchar \<Rightarrow> uchar" where
  "upper c = (if 0x61 \<le> c \<and> c \<le> 0x7A then c - 0x20 else c)"

definition brailleUnicodeToBrailleAscii :: "tables \<Rightarrow> ustring \<Rightarrow> error + ustring" where
  "brailleUnicodeToBrailleAscii L brailleUnicode =
    (let brailleLines = splitlines brailleUnicode
     in case mapE (\<lambda>sampleLine. mapE (\<lambda>char. getitem (map_of (ascii_chars L)) char) sampleLine)
               brailleLines of
          Inl e \<Rightarrow> Inl e
        | Inr asciiLines \<Rightarrow> Inr (join [0x0A] asciiLines))"

text \<open>
  The inverse dictionary is filled in the iteration order of \<open>ascii_chars\<close>; a later item
  with the same ASCII character overwrites an earlier one.
\<close>

definition add_inverse :: "uchar \<times> uchar \<Rightarrow> (uchar \<rightharpoonup> uchar) \<Rightarrow> (uchar \<rightharpoonup> uchar)" where
  "add_inverse item d = d(snd item \<mapsto> fst item)"

definition braille_chars :: "tables \<Rightarrow> (uchar \<rightharpoonup> uchar)" where
  "braille_chars L = fold add_inverse (ascii_chars L) Map.empty"

definition brailleAsciiToBrailleUnicode :: "tables \<Rightarrow> ustring \<Rightarrow> error + ustring" where
  "brailleAsciiToBrailleUnicode L brailleAscii =
    (let asciiLines = splitlines brailleAscii
     in case mapE (\<lambda>sampleLine. mapE (\<lambda>char. getitem (braille_chars L) (upper char)) sampleLine)
               asciiLines of
          Inl e \<Rightarrow> Inl e
        | Inr brailleLines \<Rightarrow> Inr (join [0x0A] brailleLines))"

text \<open>Encoding to ASCII and decoding the result.\<close>

definition asciiRoundTrip :: "tables \<Rightarrow> ustring \<Rightarrow> error + ustring" where
  "asciiRoundTrip L s =
    (case brailleUnicodeToBrailleAscii L s of
       Inl e \<Rightarrow> Inl e
     | Inr a \<Rightarrow> brailleAsciiToBrailleUnicode L a)"

text \<open>
  What the codec needs of the table: it is a dictionary (no key twice), no two cells share an
  ASCII character, no cell and no ASCII character is a line boundary, and every ASCII
  character is in the ASCII range and in its canonical (upper) case.
\<close>

definition codec_table_ok :: "(uchar \<times> uchar) list \<Rightarrow> bool" where
  "codec_table_ok t =
    (distinct (map fst t) \<and> distinct (map snd t) \<and>
     (\<forall>(k, v) \<in> set t. \<not> is_linebreak k \<and> \<not> is_linebreak v \<and> v < 128 \<and> upper v = v))"

section \<open>Notes\<close>

text \<open>
  \<open>beamStatus\<close> is a dictionary of the module, shared by all calls.  \<open>noteToBraille\<close>
  starts by storing one entry per keyword of \<open>falseKeywords\<close>: the attribute of the note,
  or \<open>False\<close> when the note has no such attribute.
\<close>

type_synonym beamStatus = "string \<rightharpoonup> bool"

definition falseKeywords :: "string list" where
  "falseKeywords = [''beginLongBracketSlur'', ''endLongBracketSlur'', ''beginLongDoubleSlur'',
                    ''endLongDoubleSlur'', ''shortSlur'', ''beamStart'', ''beamContinue'']"

definition getattr_flag :: "Note \<Rightarrow> string \<Rightarrow> bool option" where
  "getattr_flag n keyword =
    (if keyword = ''beginLongBracketSlur'' then beginLongBracketSlur n
     else if keyword = ''endLongBracketSlur'' then endLongBracketSlur n
     else if keyword = ''beginLongDoubleSlur'' then beginLongDoubleSlur n
     else if keyword = ''endLongDoubleSlur'' then endLongDoubleSlur n
     else if keyword = ''shortSlur'' then shortSlur n
     else if keyword = ''beamStart'' then beamStart n
     else if keyword = ''beamContinue'' then beamContinue n
     else None)"

definition setBeamStatus :: "beamStatus \<Rightarrow> Note \<Rightarrow> beamStatus" where
  "setBeamStatus bs n =
     fold (\<lambda>keyword b. b(keyword \<mapsto> (case getattr_flag n keyword of Some v \<Rightarrow> v | None \<Rightarrow> False)))
          falseKeywords bs"

text \<open>
  The state of one call: the note (its trace grows, its articulations get sorted), the shared
  \<open>beamStatus\<close> and the local list \<open>noteTrans\<close>.
\<close>

record nstate =
  st_note :: Note
  st_beam :: beamStatus
  st_trans :: "ustring list"

definition flag :: "nstate \<Rightarrow> string \<Rightarrow> bool" where
  "flag st keyword = (st_beam st keyword = Some True)"

text \<open>\<open>noteTrans.append(g)\<close> followed by \<open>music21Note._brailleEnglish.append(e)\<close>.\<close>

definition emit :: "ustring \<Rightarrow> entry \<Rightarrow> nstate \<Rightarrow> nstate" where
  "emit g e st = st\<lparr> st_trans := st_trans st @ [g], st_note := trace_append [e] (st_note st) \<rparr>"

definition note_log :: "entry \<Rightarrow> nstate \<Rightarrow> nstate" where
  "note_log e st = st\<lparr> st_note := trace_append [e] (st_note st) \<rparr>"

definition noteOpeningSlurs :: "tables \<Rightarrow> nstate \<Rightarrow> nstate" where
  "noteOpeningSlurs L st =
    (let st1 = (if flag st ''beginLongBracketSlur''
                then emit (sym_opening_bracket_slur (symbols L))
                       (''Opening bracket slur {0}'', [TBraille (sym_opening_bracket_slur (symbols L))]) st
                else if flag st ''beginLongDoubleSlur''
                then emit (sym_opening_double_slur (symbols L))
                       (''Opening double slur {0}'', [TBraille (sym_opening_double_slur (symbols L))]) st
                else st)
     in if flag st1 ''endLongBracketSlur'' \<and> flag st1 ''beginLongBracketSlur''
        then emit (sym_closing_bracket_slur (symbols L))
               (''Closing bracket slur {0}'', [TBraille (sym_closing_bracket_slur (symbols L))]) st1
        else st1)"

definition noteTriplet :: "tables \<Rightarrow> nstate \<Rightarrow> nstate" where
  "noteTriplet L st =
    (let allTuplets = tuplets (duration (st_note st))
     in if allTuplets \<noteq> [] \<and> hd allTuplets = ''Triplet'' then
          (if flag st ''beamStart''
           then emit (sym_triplet (symbols L)) (''Triplet {0}'', [TBraille (sym_triplet (symbols L))]) st
           else if flag st ''beamContinue''
           then st\<lparr> st_beam := (st_beam st)(''beamContinue'' \<mapsto> False) \<rparr>
           else st)
        else st)"

definition isStaccato :: "string \<Rightarrow> bool" where
  "isStaccato name = (name = ''staccato'' \<or> name = ''staccatissimo'')"

text \<open>
  The first loop over the articulations: a missing table entry is a \<open>KeyError\<close> that no
  handler of \<open>noteToBraille\<close> catches.
\<close>

fun staccatoLoop :: "tables \<Rightarrow> string list \<Rightarrow> nstate \<Rightarrow> error option \<times> nstate" where
  "staccatoLoop L [] st = (None, st)"
| "staccatoLoop L (name # artcs) st =
     (if isStaccato name then
        (case beforeNoteExpr L name of
           None \<Rightarrow> (Some KeyError, st)
         | Some g \<Rightarrow> staccatoLoop L artcs (emit g (''Articulation {0} {1}'', [TStr name, TBraille g]) st))
      else staccatoLoop L artcs st)"

text \<open>The second loop: here the \<open>KeyError\<close> is caught inside the loop and the articulation skipped.\<close>

fun otherArticulationsLoop :: "tables \<Rightarrow> string list \<Rightarrow> nstate \<Rightarrow> nstate" where
  "otherArticulationsLoop L [] st = st"
| "otherArticulationsLoop L (name # artcs) st =
     (if \<not> isStaccato name then
        (case beforeNoteExpr L name of
           None \<Rightarrow> otherArticulationsLoop L artcs st
         | Some g \<Rightarrow> otherArticulationsLoop L artcs
                       (emit g (''Articulation {0} {1}'', [TStr name, TBraille g]) st))
      else otherArticulationsLoop L artcs st)"

text \<open>
  \<open>music21Note.articulations.sort(key = lambda a: a.name)\<close> sorts the list of the note in
  place; the sort is stable and strings compare lexicographically by code point.
\<close>

definition noteArticulations :: "tables \<Rightarrow> nstate \<Rightarrow> error option \<times> nstate" where
  "noteArticulations L st =
    (if articulations (st_note st) \<noteq> [] then
       (case staccatoLoop L (articulations (st_note st)) st of
          (Some e, st1) \<Rightarrow> (Some e, st1)
        | (None, st1) \<Rightarrow>
            (let st2 = st1\<lparr> st_note := (st_note st1)\<lparr> articulations :=
                              sort_key (\<lambda>a. a) (articulations (st_note st1)) \<rparr> \<rparr>
             in (None, otherArticulationsLoop L (articulations (st_note st2)) st2)))
     else (None, st))"

definition noteAccidental :: "tables \<Rightarrow> nstate \<Rightarrow> nstate" where
  "noteAccidental L st =
    (case accidental (pitch (st_note st)) of
       None \<Rightarrow> st
     | Some acc \<Rightarrow>
        (if displayStatus acc \<noteq> Some False then
           (case accidentals L (acc_name acc) of
              None \<Rightarrow> st
            | Some g \<Rightarrow> emit g (''Accidental {0} {1}'', [TStr (acc_name acc), TBraille g]) st)
         else st))"

definition noteOctave :: "tables \<Rightarrow> bool \<Rightarrow> nstate \<Rightarrow> nstate" where
  "noteOctave L showOctave st =
    (if showOctave then
       (case octave (pitch (st_note st)) of
          None \<Rightarrow> st
        | Some k \<Rightarrow>
           (case octaves L k of
              None \<Rightarrow> st
            | Some g \<Rightarrow> emit g (''Octave {0} {1}'', [TInt k, TBraille g]) st))
     else st)"

fun dotLoop :: "tables \<Rightarrow> nat \<Rightarrow> nstate \<Rightarrow> nstate" where
  "dotLoop L 0 st = st"
| "dotLoop L (Suc k) st =
     dotLoop L k (emit (sym_dot (symbols L)) (''Dot {0}'', [TBraille (sym_dot (symbols L))]) st)"

text \<open>
  Name and duration.  The result is \<open>Some (Inr g)\<close> where the function returns \<open>g\<close> at
  once (the placeholder), \<open>Some (Inl e)\<close> where it raises, and \<open>None\<close> where it goes on.
\<close>

definition noteNameDuration :: "tables \<Rightarrow> nstate \<Rightarrow> (error + ustring) option \<times> nstate" where
  "noteNameDuration L st =
    (let n = st_note st; stp = step (pitch n)
     in case pitchNameToNotes L stp of
          None \<Rightarrow> (Some (Inr (sym_basic_exception (symbols L))),
                    note_log (''Name {0} None'', [TStr stp]) st)
        | Some notesInStep \<Rightarrow>
            (if isGrace (duration n) then
               (case notesInStep ''eighth'' of
                  None \<Rightarrow> (Some (Inl KeyError), st)
                | Some nameWithDuration \<Rightarrow>
                    (None, emit nameWithDuration
                             (''{0} {1} Gracenote--not supported {2}'',
                              [TStr stp, TStr ''eighth'', TBraille nameWithDuration]) st))
             else if flag st ''beamContinue'' then
               (case notesInStep ''eighth'' of
                  None \<Rightarrow> (Some (Inr (sym_basic_exception (symbols L))),
                            note_log (''Duration {0} None'', [TObj]) st)
                | Some nameWithDuration \<Rightarrow>
                    (None, dotLoop L (dots (duration n))
                             (emit nameWithDuration
                                (''{0} beam {1}'', [TStr stp, TBraille nameWithDuration]) st)))
             else
               (case notesInStep (dur_type (duration n)) of
                  None \<Rightarrow> (Some (Inr (sym_basic_exception (symbols L))),
                            note_log (''Duration {0} None'', [TObj]) st)
                | Some nameWithDuration \<Rightarrow>
                    (None, dotLoop L (dots (duration n))
                             (emit nameWithDuration
                                (''{0} {1} {2}'', [TStr stp, TStr (dur_type (duration n)),
                                                   TBraille nameWithDuration]) st)))))"

text \<open>
  The finger mark: no attribute (\<open>AttributeError\<close>) and an untranslatable fingering
  (\<open>BrailleBasicException\<close>) are both passed over; nothing is written to the trace.
\<close>

definition noteFingering :: "tables \<Rightarrow> bool \<Rightarrow> nstate \<Rightarrow> nstate" where
  "noteFingering L upperFirstInFingering st =
    (case fingering (st_note st) of
       None \<Rightarrow> st
     | Some f \<Rightarrow>
        (case transcribeNoteFingering L f upperFirstInFingering of
           Inl e \<Rightarrow> st
         | Inr transcribedFingering \<Rightarrow> st\<lparr> st_trans := st_trans st @ [transcribedFingering] \<rparr>))"

definition noteClosingSlurs :: "tables \<Rightarrow> nstate \<Rightarrow> nstate" where
  "noteClosingSlurs L st =
    (let st1 = (if flag st ''shortSlur''
                then emit (sym_opening_single_slur (symbols L))
                       (''Opening single slur {0}'', [TBraille (sym_opening_single_slur (symbols L))]) st
                else st)
     in if \<not> (flag st1 ''endLongBracketSlur'' \<and> flag st1 ''beginLongBracketSlur'') then
          (if flag st1 ''endLongDoubleSlur''
           then emit (sym_closing_double_slur (symbols L))
                  (''Closing bracket slur {0}'', [TBraille (sym_closing_double_slur (symbols L))]) st1
           else if flag st1 ''endLongBracketSlur''
           then emit (sym_closing_bracket_slur (symbols L))
                  (''Closing bracket slur {0}'', [TBraille (sym_closing_bracket_slur (symbols L))]) st1
           else st1)
        else st1)"

definition noteTie :: "tables \<Rightarrow> nstate \<Rightarrow> nstate" where
  "noteTie L st =
    (case tie (st_note st) of
       None \<Rightarrow> st
     | Some tieType \<Rightarrow>
        (if tieType \<noteq> ''stop''
         then emit (sym_tie (symbols L)) (''Tie {0}'', [TBraille (sym_tie (symbols L))]) st
         else st))"

text \<open>
  The whole call, with the final state: the outcome is the returned string or the exception,
  and \<open>st_trans\<close> of the state is \<open>noteTrans\<close> when the call ends.
\<close>

definition noteToBrailleState :: "tables \<Rightarrow> beamStatus \<Rightarrow> Note \<Rightarrow> bool \<Rightarrow> bool \<Rightarrow> (error + ustring) \<times> nstate" where
  "noteToBrailleState L bs music21Note showOctave upperFirstInFingering =
    (let st0 = \<lparr> st_note = music21Note\<lparr> brailleEnglish := Some [] \<rparr>,
                 st_beam = setBeamStatus bs music21Note,
                 st_trans = [] \<rparr>;
         st1 = noteOpeningSlurs L st0;
         st2 = noteTriplet L st1
     in case noteArticulations L st2 of
          (Some e, st3) \<Rightarrow> (Inl e, st3)
        | (None, st3) \<Rightarrow>
            (let st4 = noteAccidental L st3;
                 st5 = noteOctave L showOctave st4
             in case noteNameDuration L st5 of
                  (Some r, st6) \<Rightarrow> (r, st6)
                | (None, st6) \<Rightarrow>
                    (let st7 = noteFingering L upperFirstInFingering st6;
                         st8 = noteClosingSlurs L st7;
                         st9 = noteTie L st8
                     in (Inr (concat (st_trans st9)), st9))))"

definition noteToBraille :: "tables \<Rightarrow> beamStatus \<Rightarrow> Note \<Rightarrow> bool \<Rightarrow> bool \<Rightarrow> (error + ustring) \<times> Note \<times> beamStatus" where
  "noteToBraille L bs music21Note showOctave upperFirstInFingering =
    (case noteToBrailleState L bs music21Note showOctave upperFirstInFingering of
       (r, st) \<Rightarrow> (r, st_note st, st_beam st))"

section \<open>Words and numbers\<close>

text \<open>
  \<open>str.isupper()\<close> and \<open>str.lower()\<close> of one character.  The words the encoders translate
  are texts of the score; a \<open>char\<close> is a code point up to U+00FF.  In that range the
  upper-case letters are \<open>A\<close> .. \<open>Z\<close>, U+00C0 .. U+00D6 and U+00D8 .. U+00DE, and the
  lower-case letter of each is 32 code points above it.
\<close>

definition isupper :: "char \<Rightarrow> bool" where
  "isupper c = ((CHR ''A'' \<le> c \<and> c \<le> CHR ''Z'') \<or> (CHR 0xC0 \<le> c \<and> c \<le> CHR 0xD6)
                 \<or> (CHR 0xD8 \<le> c \<and> c \<le> CHR 0xDE))"

definition lower :: "char \<Rightarrow> char" where
  "lower c = (if isupper c then char_of (of_char c + (32::nat)) else c)"

text \<open>
  In a text expression the lookup of an upper-case letter stands outside the \<open>try\<close>, so
  its \<open>KeyError\<close> is not turned into a \<open>BrailleBasicException\<close>.
\<close>

definition letterToBraille :: "tables \<Rightarrow> bool \<Rightarrow> char \<Rightarrow> error + ustring" where
  "letterToBraille L isTextExpression letter =
    (if isTextExpression then
       (if isupper letter then getitem (alphabet L) (lower letter)
        else if letter = CHR ''.'' then Inr (sym_dot (symbols L))
        else (case alphabet L letter of
                None \<Rightarrow> Inl BrailleBasicException
              | Some g \<Rightarrow> Inr g))
     else
       (if isupper letter then
          (case alphabet L (lower letter) of
             None \<Rightarrow> Inl BrailleBasicException
           | Some g \<Rightarrow> Inr (sym_uppercase (symbols L) @ g))
        else (case alphabet L letter of
                None \<Rightarrow> Inl BrailleBasicException
              | Some g \<Rightarrow> Inr g)))"

definition wordToBraille :: "tables \<Rightarrow> string \<Rightarrow> bool \<Rightarrow> error + ustring" where
  "wordToBraille L sampleWord isTextExpression =
    (case mapE (letterToBraille L isTextExpression) sampleWord of
       Inl e \<Rightarrow> Inl e
     | Inr wordTrans \<Rightarrow> Inr (concat wordTrans))"

text \<open>\<open>str(n)\<close> for a natural number, as the list of its decimal digits.\<close>

fun digits_of :: "nat \<Rightarrow> nat list" where
  "digits_of n = (if n < 10 then [n] else digits_of (n div 10) @ [n mod 10])"

text \<open>
  \<open>numberToBraille\<close>: the minus sign of a negative number is not a digit (\<open>ValueError\<close>,
  turned into \<open>BrailleBasicException\<close>); a digit missing from the table is a \<open>KeyError\<close>.
\<close>

definition numberToBraille :: "tables \<Rightarrow> int \<Rightarrow> bool \<Rightarrow> error + ustring" where
  "numberToBraille L sampleNumber withNumberSign =
    (if sampleNumber < 0 then Inl BrailleBasicException
     else (case mapE (\<lambda>digit. getitem (numbers L) digit) (digits_of (nat sampleNumber)) of
             Inl e \<Rightarrow> Inl e
           | Inr ds \<Rightarrow> Inr ((if withNumberSign then sym_number (symbols L) else []) @ concat ds)))"

text \<open>
  \<open>str.split()\<close>: the pieces between runs of white space.  Up to U+00FF the white space
  characters are U+0009 .. U+000D, U+001C .. U+0020, U+0085 and U+00A0.
\<close>

definition isspace :: "char \<Rightarrow> bool" where
  "isspace c = (c \<in> set [CHR 0x09, CHR 0x0A, CHR 0x0B, CHR 0x0C, CHR 0x0D,
                          CHR 0x1C, CHR 0x1D, CHR 0x1E, CHR 0x1F, CHR 0x20, CHR 0x85, CHR 0xA0])"

fun split_ws_from :: "string \<Rightarrow> string \<Rightarrow> string list" where
  "split_ws_from cur [] = (if cur = [] then [] else [cur])"
| "split_ws_from cur (c # cs) =
     (if isspace c then (if cur = [] then split_ws_from [] cs else cur # split_ws_from [] cs)
      else split_ws_from (cur @ [c]) cs)"

definition split_ws :: "string \<Rightarrow> string list" where
  "split_ws s = split_ws_from [] s"

section \<open>The other element encoders\<close>

definition barlineToBraille :: "tables \<Rightarrow> Barline \<Rightarrow> ustring \<times> Barline" where
  "barlineToBraille L music21Barline =
    (case barlines L (bar_style music21Barline) of
       Some brailleBarline \<Rightarrow>
         (brailleBarline,
          music21Barline\<lparr> brailleEnglish := Some [(''Barline {0} {1}'',
               [TStr (bar_style music21Barline), TBraille brailleBarline])] \<rparr>)
     | None \<Rightarrow>
         (sym_basic_exception (symbols L),
          music21Barline\<lparr> brailleEnglish := Some [(''Barline {0} None'',
               [TStr (bar_style music21Barline)])] \<rparr>))"

definition clefNames :: "string \<rightharpoonup> string" where
  "clefNames = map_of
     [(''FrenchViolinClef'', ''French Violin''), (''TrebleClef'', ''Treble''),
      (''GSopranoClef'', ''G-soprano''), (''SopranoClef'', ''Soprano''),
      (''MezzoSopranoClef'', ''Mezzo-soprano''), (''AltoClef'', ''Alto''),
      (''TenorClef'', ''Tenor''), (''CBaritoneClef'', ''C-baritone''),
      (''FBaritoneClef'', ''F-baritone''), (''BassClef'', ''Bass''), (''SubBassClef'', ''Sub-bass'')]"

definition clefToBraille :: "tables \<Rightarrow> Clef \<Rightarrow> bool \<Rightarrow> ustring \<times> Clef" where
  "clefToBraille L music21Clef changeSuffix =
    (if clef_isNoClef music21Clef then
       ([], music21Clef\<lparr> brailleEnglish := Some [(''No Clef {0}'', [TObj])] \<rparr>)
     else
       (case (case clef_sign music21Clef of
                None \<Rightarrow> None
              | Some sg \<Rightarrow> (case clefs_sign L sg of
                              None \<Rightarrow> None
                            | Some byLine \<Rightarrow> byLine (clef_line music21Clef))) of
          None \<Rightarrow>
            (sym_basic_exception (symbols L),
             music21Clef\<lparr> brailleEnglish := Some [(''{0} None'', [TObj])] \<rparr>)
        | Some g \<Rightarrow>
            (let brailleClef = clefs_prefix L @ g;
                 clef1 = (case clefNames (clef_className music21Clef) of
                            Some nm \<Rightarrow> music21Clef\<lparr> brailleEnglish :=
                                          Some [(nm @ '' Clef {0}'', [TBraille brailleClef])] \<rparr>
                          | None \<Rightarrow> music21Clef\<lparr> brailleEnglish :=
                                          Some [(''Unnamed Clef {0}'', [TObj])] \<rparr>)
             in if clef_isTrebleClef music21Clef \<or> clef_isBassClef music21Clef
                then (brailleClef @ clefs_suffix L changeSuffix, clef1)
                else (brailleClef @ clefs_suffix L False, clef1))))"

text \<open>
  \<open>dynamicToBraille\<close> catches \<open>BrailleBasicException\<close> only; the \<open>KeyError\<close> of an
  upper-case letter passes through.
\<close>

definition dynamicToBraille :: "tables \<Rightarrow> Dynamic \<Rightarrow> bool \<Rightarrow> (error + ustring) \<times> Dynamic" where
  "dynamicToBraille L music21Dynamic precedeByWordSign =
    (let d0 = music21Dynamic\<lparr> brailleEnglish := Some [] \<rparr>;
         d1 = (if precedeByWordSign
               then trace_append [(''Word: {0}'', [TBraille (sym_word (symbols L))])] d0 else d0);
         dynamicTrans = (if precedeByWordSign then sym_word (symbols L) else [])
     in case wordToBraille L (dyn_value music21Dynamic) True of
          Inr brailleDynamic \<Rightarrow>
            (Inr (dynamicTrans @ brailleDynamic),
             trace_append [(''Dynamic {0} {1}'',
                            [TStr (dyn_value music21Dynamic), TBraille brailleDynamic])] d1)
        | Inl BrailleBasicException \<Rightarrow>
            (Inr (sym_basic_exception (symbols L)),
             trace_append [(''Dynamic {0} None'', [TStr (dyn_value music21Dynamic)])] d1)
        | Inl e \<Rightarrow> (Inl e, d1))"

definition restToBraille :: "tables \<Rightarrow> Rest \<Rightarrow> ustring \<times> Rest" where
  "restToBraille L music21Rest =
    (let r0 = music21Rest\<lparr> brailleEnglish := Some [] \<rparr>
     in case rests L (dur_type (rest_duration music21Rest)) of
          Some simpleRest \<Rightarrow>
            (simpleRest @ concat (replicate (dots (rest_duration music21Rest)) (sym_dot (symbols L))),
             trace_append
               ((''Rest {0} {1}'', [TStr (dur_type (rest_duration music21Rest)), TBraille simpleRest])
                # replicate (dots (rest_duration music21Rest))
                    (''Dot {0}'', [TBraille (sym_dot (symbols L))])) r0)
        | None \<Rightarrow>
            (sym_basic_exception (symbols L),
             trace_append [(''Rest {0} None'', [TStr (dur_type (rest_duration music21Rest))])] r0))"

text \<open>
  The words of a longer text expression, each followed by a space except the last; the last
  word is \<open>allExpr[-1]\<close>, an \<open>IndexError\<close> when there is no word at all.
\<close>

definition textExpressionWords :: "tables \<Rightarrow> string list \<Rightarrow> error + ustring" where
  "textExpressionWords L allExpr =
    (case mapE (\<lambda>expr. case wordToBraille L expr True of
                          Inl e \<Rightarrow> Inl e
                        | Inr w \<Rightarrow> Inr (w @ sym_space (symbols L))) (butlast allExpr) of
       Inl e \<Rightarrow> Inl e
     | Inr ws \<Rightarrow>
        (if allExpr = [] then Inl IndexError
         else (case wordToBraille L (last allExpr) True of
                 Inl e \<Rightarrow> Inl e
               | Inr w \<Rightarrow> Inr (concat ws @ w))))"

definition textExpressionToBraille :: "tables \<Rightarrow> TextExpression \<Rightarrow> bool \<Rightarrow> (error + ustring) \<times> TextExpression" where
  "textExpressionToBraille L music21TextExpression precedeByWordSign =
    (let t0 = music21TextExpression\<lparr> brailleEnglish := Some [] \<rparr>;
         content = te_content music21TextExpression
     in case textExpressions L content of
          Some simpleReturn \<Rightarrow>
            (Inr simpleReturn,
             trace_append [(''Text Expression {0} {1}'', [TStr content, TBraille simpleReturn])] t0)
        | None \<Rightarrow>
            (let allExpr = split_ws content;
                 t1 = (if precedeByWordSign
                       then trace_append [(''Word {0}'', [TBraille (sym_word (symbols L))])] t0 else t0);
                 textExpressionTrans = (if precedeByWordSign then sym_word (symbols L) else [])
             in case (if length allExpr = 1 then wordToBraille L (allExpr ! 0) True
                      else textExpressionWords L allExpr) of
                  Inr w \<Rightarrow>
                    (Inr (if length allExpr = 1 then textExpressionTrans @ w
                          else textExpressionTrans @ w @ sym_word (symbols L)),
                     trace_append [(''Text Expression {0} {1}'',
                                    [TStr content,
                                     TBraille (if length allExpr = 1 then w
                                               else textExpressionTrans @ w)])] t1)
                | Inl BrailleBasicException \<Rightarrow>
                    (Inr (sym_basic_exception (symbols L)),
                     trace_append [(''Text Expression {0} None'', [TStr content])] t1)
                | Inl e \<Rightarrow> (Inl e, t1)))"

definition timeSigToBraille :: "tables \<Rightarrow> TimeSignature \<Rightarrow> ustring \<times> TimeSignature" where
  "timeSigToBraille L music21TimeSignature =
    (let t0 = music21TimeSignature\<lparr> brailleEnglish := Some [] \<rparr>
     in case (case ts_symbol music21TimeSignature of
                None \<Rightarrow> None
              | Some sy \<Rightarrow> (case sym_named (symbols L) sy of
                              None \<Rightarrow> None | Some brailleSig \<Rightarrow> Some (sy, brailleSig))) of
          Some (sy, brailleSig) \<Rightarrow>
            (brailleSig, trace_append [(''Time Signature {0} {1}'', [TStr sy, TBraille brailleSig])] t0)
        | None \<Rightarrow>
            (case (case numberToBraille L (ts_numerator music21TimeSignature) True of
                     Inl e \<Rightarrow> None
                   | Inr num \<Rightarrow> (case beatUnits L (ts_denominator music21TimeSignature) of
                                   None \<Rightarrow> None
                                 | Some unit \<Rightarrow> Some (num @ unit))) of
               Some brailleSig \<Rightarrow>
                 (brailleSig,
                  trace_append [(''Time Signature {0}/{1} {2}'',
                                 [TInt (ts_numerator music21TimeSignature),
                                  TInt (ts_denominator music21TimeSignature), TBraille brailleSig])] t0)
             | None \<Rightarrow>
                 (sym_basic_exception (symbols L), trace_append [(''{0} None'', [TObj])] t0)))"

section \<open>Chords\<close>

text \<open>A plain note: \<open>note.Note(pitch)\<close> with a duration and nothing else set.\<close>

definition plainNote :: "Pitch \<Rightarrow> Duration \<Rightarrow> Note" where
  "plainNote p d =
    \<lparr> brailleEnglish = None, pitch = p, duration = d, articulations = [], fingering = None,
      tie = None, beginLongBracketSlur = None, endLongBracketSlur = None,
      beginLongDoubleSlur = None, endLongDoubleSlur = None, shortSlur = None,
      beamStart = None, beamContinue = None \<rparr>"

text \<open>
  \<open>chordTrans.append(intervals[intervalDistance])\<close> with its trace entry; the lookup is
  outside any \<open>try\<close>.
\<close>

definition chordInterval :: "tables \<Rightarrow> nat \<Rightarrow> ustring list \<times> Chord \<Rightarrow> error option \<times> ustring list \<times> Chord" where
  "chordInterval L intervalDistance acc =
    (case acc of (chordTrans, ch) \<Rightarrow>
       (case intervals L intervalDistance of
          None \<Rightarrow> (Some KeyError, chordTrans, ch)
        | Some g \<Rightarrow>
            (None, chordTrans @ [g],
             trace_append [(''Interval {0} {1}'', [TInt (int intervalDistance), TBraille g])] ch)))"

definition chordOctave :: "tables \<Rightarrow> Pitch \<Rightarrow> ustring list \<times> Chord \<Rightarrow> error option \<times> ustring list \<times> Chord" where
  "chordOctave L currentPitch acc =
    (case acc of (chordTrans, ch) \<Rightarrow>
       (case octave currentPitch of
          None \<Rightarrow> (Some KeyError, chordTrans, ch)
        | Some k \<Rightarrow>
           (case octaves L k of
              None \<Rightarrow> (Some KeyError, chordTrans, ch)
            | Some g \<Rightarrow>
                (None, chordTrans @ [g],
                 trace_append [(''Octave {0} {1}'', [TInt k, TBraille g])] ch))))"

text \<open>The body of the loop over the pitches after the base pitch.\<close>

definition chordPitchStep :: "tables \<Rightarrow> host \<Rightarrow> Pitch list \<Rightarrow> nat \<Rightarrow> ustring list \<times> Chord \<Rightarrow> error option \<times> ustring list \<times> Chord" where
  "chordPitchStep L H allPitches currentPitchIndex acc =
    (let basePitch = allPitches ! 0;
         currentPitch = allPitches ! currentPitchIndex;
         intervalDistance = genericUndirected H basePitch currentPitch
     in if intervalDistance > 8 then
          (let intervalDistance' = intervalDistance mod 8 + 1
           in if currentPitchIndex = 1 then
                (case chordOctave L currentPitch acc of
                   (Some e, acc') \<Rightarrow> (Some e, acc')
                 | (None, acc') \<Rightarrow> chordInterval L intervalDistance' acc')
              else
                (let previousPitch = allPitches ! (currentPitchIndex - 1);
                     relativeIntervalDist = genericUndirected H previousPitch currentPitch
                 in if relativeIntervalDist \<ge> 8 then
                      (case chordOctave L currentPitch acc of
                         (Some e, acc') \<Rightarrow> (Some e, acc')
                       | (None, acc') \<Rightarrow> chordInterval L intervalDistance' acc')
                    else chordInterval L intervalDistance' acc))
        else chordInterval L intervalDistance acc)"

fun chordLoop :: "tables \<Rightarrow> host \<Rightarrow> Pitch list \<Rightarrow> nat list \<Rightarrow> ustring list \<times> Chord \<Rightarrow> error option \<times> ustring list \<times> Chord" where
  "chordLoop L H allPitches [] acc = (None, acc)"
| "chordLoop L H allPitches (i # idxs) acc =
     (case chordPitchStep L H allPitches i acc of
        (Some e, acc') \<Rightarrow> (Some e, acc')
      | (None, acc') \<Rightarrow> chordLoop L H allPitches idxs acc')"

text \<open>
  \<open>sorted(music21Chord.pitches)\<close> is a stable sort by the host's pitch order.  The base note
  is a new note on the base pitch with the length of the chord; it is no grace note.
\<close>

definition chordToBraille :: "tables \<Rightarrow> host \<Rightarrow> beamStatus \<Rightarrow> Chord \<Rightarrow> bool \<Rightarrow> bool \<Rightarrow> (error + ustring) \<times> Chord \<times> beamStatus" where
  "chordToBraille L H bs music21Chord descending showOctave =
    (let ch0 = music21Chord\<lparr> brailleEnglish := Some [] \<rparr>;
         sortedPitches = sort_key (ps H) (map pitch (chord_notes music21Chord));
         allPitches = (if descending then rev sortedPitches else sortedPitches);
         direction = (if descending then ''Descending'' else ''Ascending'')
     in if allPitches = [] then (Inl IndexError, ch0, bs)
        else
          (let basePitch = allPitches ! 0;
               initNote = plainNote basePitch ((chord_duration music21Chord)\<lparr> isGrace := False \<rparr>)
           in case noteToBraille L bs initNote showOctave True of
                (Inl e, initNote', bs') \<Rightarrow> (Inl e, ch0, bs')
              | (Inr brailleNote, initNote', bs') \<Rightarrow>
                  (if brailleNote = sym_basic_exception (symbols L) then
                     (Inr (sym_basic_exception (symbols L)),
                      trace_append [(''{0} None'', [TObj])] ch0, bs')
                   else
                     (case chordLoop L H allPitches [1..<length allPitches]
                             ([brailleNote],
                              trace_append [(''{0} Chord:'' @ [CHR 0x0A] @ ''{1}'',
                                   [TStr direction,
                                    TEntries (case brailleEnglish initNote' of
                                                None \<Rightarrow> [] | Some t \<Rightarrow> t)])] ch0) of
                        (Some e, chordTrans, ch) \<Rightarrow> (Inl e, ch, bs')
                      | (None, chordTrans, ch) \<Rightarrow> (Inr (concat chordTrans), ch, bs')))))"

section \<open>Groupings\<close>

text \<open>
  The state of the loop of \<open>transcribeNoteGrouping\<close>: the list \<open>trans\<close>, the previous
  note, the flag \<open>showLeadingOctave\<close>, the elements visited so far (as the encoders left
  them; the last one is \<open>previousElement\<close>) and the shared \<open>beamStatus\<close>.  Each position
  of the grouping is taken to be an object of its own.
\<close>

record gstate =
  g_trans :: "ustring list"
  g_previousNote :: "Note option"
  g_showLeadingOctave :: bool
  g_visited :: "element list"
  g_beam :: beamStatus

definition getattr :: "'a option \<Rightarrow> error + 'a" where
  "getattr a = (case a of None \<Rightarrow> Inl AttributeError | Some v \<Rightarrow> Inr v)"

definition isDynamic :: "element \<Rightarrow> bool" where
  "isDynamic e = (case e of EDynamic d \<Rightarrow> True | _ \<Rightarrow> False)"

definition isTextExpression :: "element \<Rightarrow> bool" where
  "isTextExpression e = (case e of ETextExpression t \<Rightarrow> True | _ \<Rightarrow> False)"

definition isClef :: "element \<Rightarrow> bool" where
  "isClef e = (case e of EClef c \<Rightarrow> True | _ \<Rightarrow> False)"

text \<open>\<open>previousElement._brailleEnglish.append(e)\<close>, for the classes the dot rule applies to.\<close>

definition element_log :: "entry \<Rightarrow> element \<Rightarrow> element" where
  "element_log e el =
    (case el of
       EDynamic d \<Rightarrow> EDynamic (trace_append [e] d)
     | ETextExpression t \<Rightarrow> ETextExpression (trace_append [e] t)
     | EClef c \<Rightarrow> EClef (trace_append [e] c)
     | _ \<Rightarrow> el)"

text \<open>
  The \<open>isinstance\<close> chain of the loop body.  The result is the exception that leaves the
  loop, if any, the element as the encoder left it, and the state.
\<close>

definition doShowOctaveFor :: "host \<Rightarrow> gstate \<Rightarrow> Note \<Rightarrow> bool" where
  "doShowOctaveFor H st currentNote =
    (if g_previousNote st = None then g_showLeadingOctave st
     else showOctaveWithNote H (g_previousNote st) currentNote)"

definition encodeElement :: "tables \<Rightarrow> host \<Rightarrow> Grouping \<Rightarrow> bool \<Rightarrow> element \<Rightarrow> gstate \<Rightarrow> error option \<times> element \<times> gstate" where
  "encodeElement L H g upperFirstInFingering brailleElement st =
    (case brailleElement of
       ENote currentNote \<Rightarrow>
         (case noteToBraille L (g_beam st) currentNote (doShowOctaveFor H st currentNote)
                 upperFirstInFingering of
            (Inl e, n', bs') \<Rightarrow> (Some e, ENote n', st\<lparr> g_beam := bs' \<rparr>)
          | (Inr brailleNote, n', bs') \<Rightarrow>
              (None, ENote n',
               st\<lparr> g_trans := g_trans st @ [brailleNote], g_previousNote := Some n',
                    g_beam := bs' \<rparr>))
     | ERest currentRest \<Rightarrow>
         (case restToBraille L currentRest of
            (b, r') \<Rightarrow> (None, ERest r', st\<lparr> g_trans := g_trans st @ [b] \<rparr>))
     | EChord currentChord \<Rightarrow>
         (let allNotes = sort_key (\<lambda>n. ps H (pitch n)) (chord_notes currentChord)
          in case getattr (descendingChords g) of
               Inl e \<Rightarrow> (Some e, brailleElement, st)
             | Inr desc \<Rightarrow>
                 (if allNotes = [] then (Some IndexError, brailleElement, st)
                  else
                    (let currentNote = (if desc then last allNotes else allNotes ! 0)
                     in case chordToBraille L H (g_beam st) currentChord desc
                               (doShowOctaveFor H st currentNote) of
                          (Inl e, c', bs') \<Rightarrow> (Some e, EChord c', st\<lparr> g_beam := bs' \<rparr>)
                        | (Inr brailleChord, c', bs') \<Rightarrow>
                            (None, EChord c',
                             st\<lparr> g_trans := g_trans st @ [brailleChord],
                                  g_previousNote := Some currentNote, g_beam := bs' \<rparr>))))
     | EDynamic currentDynamic \<Rightarrow>
         (case dynamicToBraille L currentDynamic True of
            (Inl e, d') \<Rightarrow> (Some e, EDynamic d', st)
          | (Inr brailleDynamic, d') \<Rightarrow>
              (None, EDynamic d',
               st\<lparr> g_trans := g_trans st @ [brailleDynamic], g_previousNote := None,
                    g_showLeadingOctave := True \<rparr>))
     | ETextExpression currentExpression \<Rightarrow>
         (case textExpressionToBraille L currentExpression True of
            (Inl e, t') \<Rightarrow> (Some e, ETextExpression t', st)
          | (Inr brailleExpression, t') \<Rightarrow>
              (None, ETextExpression t',
               st\<lparr> g_trans := g_trans st @ [brailleExpression], g_previousNote := None,
                    g_showLeadingOctave := True \<rparr>))
     | EBarline currentBarline \<Rightarrow>
         (case barlineToBraille L currentBarline of
            (b, b') \<Rightarrow> (None, EBarline b', st\<lparr> g_trans := g_trans st @ [b] \<rparr>))
     | EClef currentClef \<Rightarrow>
         (case getattr (showClefSigns g) of
            Inl e \<Rightarrow> (Some e, brailleElement, st)
          | Inr shown \<Rightarrow>
              (if shown then
                 (case clefToBraille L currentClef False of
                    (b, c') \<Rightarrow>
                      (None, EClef c',
                       st\<lparr> g_trans := g_trans st @ [b], g_previousNote := None,
                            g_showLeadingOctave := True \<rparr>))
               else (None, brailleElement, st)))
     | EOther x \<Rightarrow> (None, brailleElement, st))"

text \<open>
  The dot rule reads the three rows of the first cell of the last string of \<open>trans\<close>; when
  one of them is \<open>'10'\<close> or \<open>'11'\<close> it inserts a dot before that string
  (\<open>trans.insert(-1, ...)\<close>) and notes it on the previous element.
\<close>

definition rowHasLeftDot :: "string \<Rightarrow> bool" where
  "rowHasLeftDot dts = (dts = ''10'' \<or> dts = ''11'')"

definition insertDot3 :: "tables \<Rightarrow> gstate \<Rightarrow> error option \<times> gstate" where
  "insertDot3 L st =
    (if g_trans st = [] then (Some IndexError, st)
     else if last (g_trans st) = [] then (Some IndexError, st)
     else
       (case binary_dots L (hd (last (g_trans st))) of
          None \<Rightarrow> (Some KeyError, st)
        | Some (dots14, dots25, dots36) \<Rightarrow>
            (if rowHasLeftDot dots14 \<or> rowHasLeftDot dots25 \<or> rowHasLeftDot dots36 then
               (None, st\<lparr> g_trans := butlast (g_trans st) @ [sym_dot (symbols L), last (g_trans st)],
                          g_visited := butlast (g_visited st)
                             @ [element_log (''Dot 3 {0}'', [TBraille (sym_dot (symbols L))])
                                  (last (g_visited st))] \<rparr>)
             else (None, st))))"

definition contentOf :: "element \<Rightarrow> string" where
  "contentOf e = (case e of ETextExpression t \<Rightarrow> te_content t | _ \<Rightarrow> [])"

definition dotRule :: "tables \<Rightarrow> Grouping \<Rightarrow> element \<Rightarrow> gstate \<Rightarrow> error option \<times> gstate" where
  "dotRule L g brailleElement st =
    (if g_visited st = [] then (None, st)
     else
       (let previousElement = last (g_visited st)
        in case getattr (showClefSigns g) of
             Inl e \<Rightarrow> (Some e, st)
           | Inr shown \<Rightarrow>
               (if (shown \<and> isClef previousElement)
                     \<or> (isDynamic previousElement \<and> \<not> isDynamic brailleElement
                          \<and> \<not> isTextExpression brailleElement)
                then insertDot3 L st
                else if isTextExpression previousElement \<and> \<not> isDynamic brailleElement
                          \<and> \<not> isTextExpression brailleElement
                then (if contentOf previousElement = [] then (Some IndexError, st)
                      else if \<not> (last (contentOf previousElement) = CHR ''.'')
                      then insertDot3 L st
                      else (None, st))
                else (None, st))))"

text \<open>
  One pass of the loop body.  The element is added to the visited ones as it was left, also
  when the body is left by an exception.
\<close>

definition groupingStep :: "tables \<Rightarrow> host \<Rightarrow> Grouping \<Rightarrow> element \<Rightarrow> gstate \<Rightarrow> error option \<times> gstate" where
  "groupingStep L H g brailleElement st =
    (case getattr (upperFirstInNoteFingering g) of
       Inl e \<Rightarrow> (Some e, st\<lparr> g_visited := g_visited st @ [brailleElement] \<rparr>)
     | Inr upperFirstInFingering \<Rightarrow>
        (case encodeElement L H g upperFirstInFingering brailleElement st of
           (Some e, el', st1) \<Rightarrow> (Some e, st1\<lparr> g_visited := g_visited st1 @ [el'] \<rparr>)
         | (None, el', st1) \<Rightarrow>
            (case dotRule L g el' st1 of
               (Some e, st2) \<Rightarrow> (Some e, st2\<lparr> g_visited := g_visited st2 @ [el'] \<rparr>)
             | (None, st2) \<Rightarrow> (None, st2\<lparr> g_visited := g_visited st2 @ [el'] \<rparr>))))"

fun groupingLoop :: "tables \<Rightarrow> host \<Rightarrow> Grouping \<Rightarrow> element list \<Rightarrow> gstate \<Rightarrow> error option \<times> gstate \<times> element list" where
  "groupingLoop L H g [] st = (None, st, [])"
| "groupingLoop L H g (brailleElement # rest) st =
     (case groupingStep L H g brailleElement st of
        (Some e, st') \<Rightarrow> (Some e, st', rest)
      | (None, st') \<Rightarrow> groupingLoop L H g rest st')"

definition optionsSet :: "Grouping \<Rightarrow> bool" where
  "optionsSet g = (descendingChords g \<noteq> None \<and> showClefSigns g \<noteq> None
                    \<and> upperFirstInNoteFingering g \<noteq> None)"

definition groupingTry :: "tables \<Rightarrow> host \<Rightarrow> beamStatus \<Rightarrow> Grouping \<Rightarrow> bool \<Rightarrow> error option \<times> gstate \<times> element list" where
  "groupingTry L H bs g showLeadingOctave =
     groupingLoop L H g (elements g)
       \<lparr> g_trans = [], g_previousNote = None, g_showLeadingOctave = showLeadingOctave,
         g_visited = [], g_beam = bs \<rparr>"

text \<open>
  \<open>transcribeNoteGrouping\<close>: the loop in a \<open>try\<close>; on \<open>AttributeError\<close> the three
  options are set to their defaults on the grouping and the function calls itself, with the
  value \<open>showLeadingOctave\<close> has at that moment.  With the three options set the loop raises
  no \<open>AttributeError\<close>, so the recursion is at most one call deep.
\<close>

definition visitedGrouping :: "Grouping \<Rightarrow> error option \<times> gstate \<times> element list \<Rightarrow> Grouping" where
  "visitedGrouping g r = g\<lparr> elements := g_visited (fst (snd r)) @ snd (snd r) \<rparr>"

definition withDefaults :: "Grouping \<Rightarrow> Grouping" where
  "withDefaults g = g\<lparr> descendingChords := Some True, showClefSigns := Some False,
                       upperFirstInNoteFingering := Some True \<rparr>"

function transcribeNoteGrouping :: "tables \<Rightarrow> host \<Rightarrow> beamStatus \<Rightarrow> Grouping \<Rightarrow> bool \<Rightarrow> (error + ustring) \<times> Grouping \<times> beamStatus" where
  "transcribeNoteGrouping L H bs g showLeadingOctave =
    (let r = groupingTry L H bs g showLeadingOctave
     in if fst r = Some AttributeError then
          transcribeNoteGrouping L H (g_beam (fst (snd r))) (withDefaults (visitedGrouping g r))
            (g_showLeadingOctave (fst (snd r)))
        else (case fst r of
                Some e \<Rightarrow> (Inl e, visitedGrouping g r, g_beam (fst (snd r)))
              | None \<Rightarrow> (Inr (concat (g_trans (fst (snd r)))), visitedGrouping g r,
                         g_beam (fst (snd r)))))"
  by pat_completeness auto
termination
proof (relation "measure (\<lambda>(L, H, bs, g, slo). if optionsSet g then 0 else 1)")
  show "wf (measure (\<lambda>(L, H, bs, g, slo). if optionsSet g then 0 else (1::nat)))" by simp
next
  fix L H bs g showLeadingOctave r
  assume r: "r = groupingTry L H bs g showLeadingOctave" and a: "fst r = Some AttributeError"
  have mapE_error: "mapE f xs = Inl e \<Longrightarrow> \<exists>x \<in> set xs. f x = Inl e" for f xs e
    by (induction xs) (auto split: sum.splits)
  have staccato: "staccatoLoop L artcs st = (Some e, st') \<Longrightarrow> e = KeyError" for artcs st e st'
    by (induction L artcs st rule: staccatoLoop.induct) (auto split: if_splits option.splits)
  have e_state: "fst (noteToBrailleState L bs n so uf) = Inl e \<Longrightarrow> e = KeyError" for bs n so uf e
    by (auto simp: noteToBrailleState_def Let_def noteArticulations_def noteNameDuration_def
        split: prod.splits option.splits if_splits dest: staccato)
  have e_note: "noteToBraille L bs n so uf = (Inl e, x) \<Longrightarrow> e = KeyError" for bs n so uf e x
    using e_state [of bs n so uf e] by (auto simp: noteToBraille_def split: prod.splits)
  have interval: "chordInterval L d acc = (Some e, acc') \<Longrightarrow> e = KeyError" for d acc e acc'
    by (auto simp: chordInterval_def split: prod.splits option.splits)
  have octv: "chordOctave L p acc = (Some e, acc') \<Longrightarrow> e = KeyError" for p acc e acc'
    by (auto simp: chordOctave_def split: prod.splits option.splits)
  have "chordPitchStep L H pl i acc = (Some e, acc') \<Longrightarrow> e = KeyError" for pl i acc e acc'
    by (auto simp: chordPitchStep_def Let_def split: if_splits prod.splits option.splits
        dest: interval octv)
  then have "chordLoop L H pl idxs acc = (Some e, acc') \<Longrightarrow> e = KeyError" for pl idxs acc e acc'
    by (induction idxs arbitrary: acc) (auto split: prod.splits option.splits)
  then have e_chord: "chordToBraille L H bs c d so = (Inl e, x) \<Longrightarrow> e = KeyError \<or> e = IndexError"
    for bs c d so e x
    by (auto simp: chordToBraille_def Let_def split: if_splits prod.splits sum.splits option.splits
        dest: e_note)
  have "letterToBraille L t c = Inl e \<Longrightarrow> e = KeyError \<or> e = BrailleBasicException" for t c e
    by (auto simp: letterToBraille_def getitem_def split: if_splits option.splits)
  then have e_word: "wordToBraille L w t = Inl e \<Longrightarrow> e = KeyError \<or> e = BrailleBasicException"
    for w t e
    by (auto simp: wordToBraille_def split: sum.splits dest!: mapE_error)
  have e_dynamic: "dynamicToBraille L d p = (Inl e, x) \<Longrightarrow> e = KeyError" for d p e x
    by (auto simp: dynamicToBraille_def Let_def split: sum.splits error.splits dest: e_word)
  have "textExpressionWords L ws = Inl e
          \<Longrightarrow> e = KeyError \<or> e = BrailleBasicException \<or> e = IndexError" for ws e
    by (auto simp: textExpressionWords_def split: sum.splits if_splits dest!: mapE_error e_word)
  then have e_text: "textExpressionToBraille L t p = (Inl e, x) \<Longrightarrow> e = KeyError \<or> e = IndexError"
    for t p e x
    by (auto simp: textExpressionToBraille_def Let_def
        split: sum.splits error.splits option.splits if_splits dest: e_word)
  have dot3: "insertDot3 L st = (Some e, st') \<Longrightarrow> e \<noteq> AttributeError" for st e st'
    by (auto simp: insertDot3_def split: if_splits option.splits prod.splits)
  have encode: "e \<noteq> AttributeError"
    if "optionsSet g" "encodeElement L H g uf el st = (Some e, x)" for g uf el st e x
  proof (cases el)
    case (ENote n)
    with that(2) show ?thesis
      by (auto simp: encodeElement_def split: prod.splits sum.splits dest: e_note)
  next
    case (ERest y)
    with that(2) show ?thesis by (auto simp: encodeElement_def split: prod.splits)
  next
    case (EChord c)
    with that show ?thesis
      by (auto simp: encodeElement_def optionsSet_def getattr_def Let_def
          split: prod.splits sum.splits if_splits dest: e_chord)
  next
    case (EDynamic d)
    with that(2) show ?thesis
      by (auto simp: encodeElement_def split: prod.splits sum.splits dest: e_dynamic)
  next
    case (ETextExpression t)
    with that(2) show ?thesis
      by (auto simp: encodeElement_def split: prod.splits sum.splits dest: e_text)
  next
    case (EBarline b)
    with that(2) show ?thesis by (auto simp: encodeElement_def split: prod.splits)
  next
    case (EClef c)
    with that show ?thesis
      by (auto simp: encodeElement_def optionsSet_def getattr_def split: prod.splits if_splits)
  next
    case (EOther y)
    with that(2) show ?thesis by (auto simp: encodeElement_def)
  qed
  have e_rule: "e \<noteq> AttributeError" if "optionsSet g" "dotRule L g el st = (Some e, x)" for g el st e x
    using that
    by (auto simp: dotRule_def optionsSet_def getattr_def Let_def split: if_splits dest: dot3)
  have e_step: "e \<noteq> AttributeError"
    if "optionsSet g" "groupingStep L H g el st = (Some e, x)" for g el st e x
    using that
    by (auto simp: groupingStep_def optionsSet_def getattr_def split: prod.splits option.splits
        dest: encode [OF that(1)] e_rule [OF that(1)])
  have e_loop: "fst (groupingLoop L H g els st) \<noteq> Some AttributeError" if "optionsSet g" for g els st
  proof (induction els arbitrary: st)
    case Nil
    show ?case by simp
  next
    case (Cons el els)
    show ?case
    proof (cases "groupingStep L H g el st")
      case (Pair err st')
      show ?thesis
      proof (cases err)
        case None
        with Pair Cons show ?thesis by simp
      next
        case (Some e)
        with Pair e_step [OF that, of el st e st'] show ?thesis by simp
      qed
    qed
  qed
  have "\<not> optionsSet g" using e_loop [of g "elements g"] r a by (auto simp: groupingTry_def)
  moreover have "optionsSet (withDefaults (visitedGrouping g r))"
    by (simp add: optionsSet_def withDefaults_def)
  ultimately show "((L, H, g_beam (fst (snd r)), withDefaults (visitedGrouping g r),
            g_showLeadingOctave (fst (snd r))), L, H, bs, g, showLeadingOctave)
          \<in> measure (\<lambda>(L, H, bs, g, slo). if optionsSet g then 0 else 1)"
    by simp
qed

section \<open>A table instance and a host instance\<close>

text \<open>
  The encoders are evaluated on concrete inputs with the following instance of the tables: the
  cells of the six-dot music code that the doctests of the source print (\<open>C4\<close> is
  U+2810 U+2839, the dynamic \<open>f\<close> is U+281C U+280B, the fingering \<open>'x,2'\<close> is U+2820
  U+2803, and so on).  Only the entries the examples need are listed.
\<close>

definition sample_symbols :: symbols where
  "sample_symbols =
    \<lparr> sym_basic_exception = [0x281C, 0x2826],
      sym_dot = [0x2804],
      sym_word = [0x281C],
      sym_space = [0x2800],
      sym_triplet = [0x2806],
      sym_tie = [0x2808, 0x2809],
      sym_opening_bracket_slur = [0x2830, 0x2803],
      sym_closing_bracket_slur = [0x2818, 0x2806],
      sym_opening_double_slur = [0x2809, 0x2809],
      sym_closing_double_slur = [0x2809],
      sym_opening_single_slur = [0x2809],
      sym_finger_change = [0x2809],
      sym_first_set_missing_fingermark = [0x2820],
      sym_second_set_missing_fingermark = [0x2804],
      sym_uppercase = [0x2820],
      sym_number = [0x283C],
      sym_named = map_of [(''common'', [0x2828, 0x2809]), (''cut'', [0x2838, 0x2809])] \<rparr>"

text \<open>
  Braille ASCII in the order of the cells U+2800 .. U+283F; \<open>ascii_chars\<close> pairs the cell
  U+2800 + k with the k-th character.
\<close>

definition braille_ascii :: string where
  "braille_ascii =
     '' A1B'' @ [CHR 0x27] @ ''K2L@CIF/MSP'' @ [CHR 0x22] @ ''E3H9O6R^DJG>NTQ,*5<-U8V.%[$+X!&;:4''
     @ [CHR 0x5C] @ ''0Z7(_?W]#Y)=''"

text \<open>
  Modelled from the spec: the table \<open>lookup.binary_dots\<close> is not under src/.  A cell is six
  dot flags addressable as three row pairs (top, middle, bottom), each pair one of
  \<open>'00'\<close>, \<open>'01'\<close>, \<open>'10'\<close>, \<open>'11'\<close> for the left and the right dot of the row;
  \<open>brailleUnicodeToSymbols\<close> reads the triple as \<open>(dots14, dots25, dots36)\<close>.  Bit k of
  the offset of a cell from U+2800 is dot k + 1.
\<close>

definition dot_pair :: "nat \<Rightarrow> nat \<Rightarrow> nat \<Rightarrow> string" where
  "dot_pair n l r =
     [if odd (n div 2 ^ l) then CHR ''1'' else CHR ''0'',
      if odd (n div 2 ^ r) then CHR ''1'' else CHR ''0'']"

definition cell_dot_rows :: "uchar \<rightharpoonup> (string \<times> string \<times> string)" where
  "cell_dot_rows c =
     (if 0x2800 \<le> c \<and> c \<le> 0x283F
      then (let n = c - 0x2800 in Some (dot_pair n 0 3, dot_pair n 1 4, dot_pair n 2 5))
      else None)"

definition sample_tables :: tables where
  "sample_tables =
    \<lparr> accidentals = map_of [(''sharp'', [0x2829]), (''flat'', [0x2823]), (''natural'', [0x2821])],
      alphabet = map_of (zip ''abcdefghijklmnopqrstuvwxyz''
          (map (\<lambda>c. [c]) [0x2801, 0x2803, 0x2809, 0x2819, 0x2811, 0x280B, 0x281B, 0x2813, 0x280A,
             0x281A, 0x2805, 0x2807, 0x280D, 0x281D, 0x2815, 0x280F, 0x281F, 0x2817, 0x280E,
             0x281E, 0x2825, 0x2827, 0x283A, 0x282D, 0x283D, 0x2835])),
      ascii_chars = zip (map (\<lambda>k. 0x2800 + k) [0..<64]) (map of_char braille_ascii),
      barlines = map_of [(''final'', [0x2823, 0x2805]), (''double'', [0x2823, 0x2805, 0x2804]),
                         (''heavy'', [0x2807])],
      beatUnits = map_of [(2, [0x2806]), (4, [0x2832]), (8, [0x2826])],
      beforeNoteExpr = map_of [(''staccato'', [0x2826]), (''accent'', [0x2828, 0x2826]),
                               (''tenuto'', [0x2838, 0x2826]), (''staccatissimo'', [0x2820, 0x2826])],
      clefs_prefix = [0x281C],
      clefs_sign = map_of [(''G'', map_of [(2, [0x280C])]), (''F'', map_of [(4, [0x283C])]),
                           (''C'', map_of [(1, [0x282C, 0x2808]), (3, [0x282C]), (4, [0x282C, 0x2810])])],
      clefs_suffix = (\<lambda>changeSuffix. if changeSuffix then [0x2805] else [0x2807]),
      fingerMarks = map_of [(''1'', [0x2801]), (''2'', [0x2803]), (''3'', [0x2807]),
                            (''4'', [0x2802]), (''5'', [0x2805])],
      intervals = map_of [(2, [0x280C]), (3, [0x282C]), (4, [0x283C]), (5, [0x2814]),
                          (6, [0x2834]), (7, [0x2812]), (8, [0x2824])],
      keySignatures = map_of [(0, []), (1, [0x2829]), (2, [0x2829, 0x2829]),
                              (3, [0x2829, 0x2829, 0x2829]), (4, [0x283C, 0x2819, 0x2829]),
                              (5, [0x283C, 0x2811, 0x2829]),
                              (- 1, [0x2823]), (- 2, [0x2823, 0x2823]),
                              (- 3, [0x2823, 0x2823, 0x2823])],
      naturals = map_of [(0, []), (1, [0x2821]), (2, [0x2821, 0x2821]),
                         (3, [0x2821, 0x2821, 0x2821]), (4, [0x283C, 0x2819, 0x2821])],
      numbers = map_of [(0, [0x281A]), (1, [0x2801]), (2, [0x2803]), (3, [0x2809]), (4, [0x2819]),
                        (5, [0x2811]), (6, [0x280B]), (7, [0x281B]), (8, [0x2813]), (9, [0x280A])],
      octaves = map_of [(1, [0x2808]), (2, [0x2818]), (3, [0x2838]), (4, [0x2810]),
                        (5, [0x2828]), (6, [0x2830]), (7, [0x2820])],
      pitchNameToNotes = map_of
        [(''C'', map_of [(''eighth'', [0x2819]), (''quarter'', [0x2839]), (''half'', [0x281D]), (''whole'', [0x283D])]),
         (''D'', map_of [(''eighth'', [0x2811]), (''quarter'', [0x2831]), (''half'', [0x2815]), (''whole'', [0x2835])]),
         (''E'', map_of [(''eighth'', [0x280B]), (''quarter'', [0x282B]), (''half'', [0x280F]), (''whole'', [0x282F])]),
         (''F'', map_of [(''eighth'', [0x281B]), (''quarter'', [0x283B]), (''half'', [0x281F]), (''whole'', [0x283F])]),
         (''G'', map_of [(''eighth'', [0x2813]), (''quarter'', [0x2833]), (''half'', [0x2817]), (''whole'', [0x2837])]),
         (''A'', map_of [(''eighth'', [0x280A]), (''quarter'', [0x282A]), (''half'', [0x280E]), (''whole'', [0x282E])]),
         (''B'', map_of [(''eighth'', [0x281A]), (''quarter'', [0x283A]), (''half'', [0x281E]), (''whole'', [0x283E])])],
      rests = map_of [(''whole'', [0x280D]), (''half'', [0x2825]), (''quarter'', [0x2827]),
                      (''eighth'', [0x282D])],
      symbols = sample_symbols,
      textExpressions = map_of [(''cresc.'', [0x281C, 0x2809, 0x2817, 0x2804])],
      binary_dots = cell_dot_rows \<rparr>"

text \<open>
  Modelled from the spec: \<open>music21.interval\<close> and \<open>music21.pitch\<close> are not under src/.  The
  generic interval is the unsigned count of diatonic scale steps between two pitches, ignoring
  quality and direction, with a unison counted as 1 (a sixth is 6, an octave 8); pitches are
  ordered by their height in semitones.  A pitch without an octave counts as octave 4.
\<close>

definition stepNum :: "string \<Rightarrow> int" where
  "stepNum s = (case map_of [(''C'', 0), (''D'', 1), (''E'', 2), (''F'', 3), (''G'', 4), (''A'', 5), (''B'', 6)] s of
                  Some k \<Rightarrow> k | None \<Rightarrow> 0)"

definition stepSemitones :: "string \<Rightarrow> int" where
  "stepSemitones s = (case map_of [(''C'', 0), (''D'', 2), (''E'', 4), (''F'', 5), (''G'', 7), (''A'', 9), (''B'', 11)] s of
                        Some k \<Rightarrow> k | None \<Rightarrow> 0)"

definition accidentalAlter :: "Accidental option \<Rightarrow> int" where
  "accidentalAlter a =
     (case a of
        None \<Rightarrow> 0
      | Some acc \<Rightarrow> (case map_of [(''sharp'', 1), (''flat'', - 1), (''natural'', 0),
                                  (''double-sharp'', 2), (''double-flat'', - 2)] (acc_name acc) of
                       Some k \<Rightarrow> k | None \<Rightarrow> 0))"

definition implicitOctave :: "Pitch \<Rightarrow> int" where
  "implicitOctave p = (case octave p of None \<Rightarrow> 4 | Some k \<Rightarrow> k)"

definition diatonicNoteNum :: "Pitch \<Rightarrow> int" where
  "diatonicNoteNum p = stepNum (step p) + 1 + 7 * implicitOctave p"

definition sample_host :: host where
  "sample_host =
    \<lparr> genericUndirected = (\<lambda>p q. nat \<bar>diatonicNoteNum q - diatonicNoteNum p\<bar> + 1),
      ps = (\<lambda>p. 12 * (implicitOctave p + 1) + stepSemitones (step p) + accidentalAlter (accidental p)) \<rparr>"

definition mkPitch :: "string \<Rightarrow> int \<Rightarrow> Pitch" where
  "mkPitch s k = \<lparr> step = s, octave = Some k, accidental = None \<rparr>"

definition quarter :: Duration where
  "quarter = \<lparr> dur_type = ''quarter'', dots = 0, tuplets = [], isGrace = False \<rparr>"

definition whole :: Duration where
  "whole = \<lparr> dur_type = ''whole'', dots = 0, tuplets = [], isGrace = False \<rparr>"

definition mkChord :: "Pitch list \<Rightarrow> Duration \<Rightarrow> Chord" where
  "mkChord pl d = \<lparr> brailleEnglish = None, chord_notes = map (\<lambda>p. plainNote p d) pl, chord_duration = d \<rparr>"

definition mkKeySig :: "int \<Rightarrow> KeySignature" where
  "mkKeySig n = \<lparr> brailleEnglish = None, sharps = n \<rparr>"

section \<open>Notions used in the statements and proofs\<close>

text \<open>A string whose only line boundaries are LF characters.\<close>

definition lf_only :: "ustring \<Rightarrow> bool" where
  "lf_only s = (\<forall>c \<in> set s. is_linebreak c \<longrightarrow> c = 0x0A)"

text \<open>The character-wise encoder and decoder, with LF kept.\<close>

definition enc_char :: "tables \<Rightarrow> uchar \<Rightarrow> uchar" where
  "enc_char L c = (if c = 0x0A then 0x0A else the (map_of (ascii_chars L) c))"

definition dec_char :: "tables \<Rightarrow> uchar \<Rightarrow> uchar" where
  "dec_char L c = (if c = 0x0A then 0x0A else the (braille_chars L (upper c)))"

text \<open>
  One state of a call of \<open>noteToBraille\<close> follows another: the note differs at most in
  its trace, \<open>beamStatus\<close> is the same and \<open>noteTrans\<close> has grown at its end.
\<close>

definition note_frame :: "nstate \<Rightarrow> nstate \<Rightarrow> bool" where
  "note_frame st st' =
    ((\<exists>t. st_note st' = (st_note st)\<lparr> brailleEnglish := t \<rparr>) \<and> st_beam st' = st_beam st
     \<and> (\<exists>xs. st_trans st' = st_trans st @ xs))"



text \<open>An example note for the order of the marks.\<close>

definition tripletNote :: Note where
  "tripletNote = (plainNote \<lparr> step = ''C'', octave = Some 4,
                                accidental = Some \<lparr> acc_name = ''sharp'', displayStatus = None \<rparr> \<rparr>
                            \<lparr> dur_type = ''eighth'', dots = 0, tuplets = [''Triplet''], isGrace = False \<rparr>)
                   \<lparr> articulations := [''tenuto'', ''staccato'', ''accent''], beamStart := Some True \<rparr>"

text \<open>
  Two states of \<open>noteToBraille\<close> that differ at most in entries of \<open>beamStatus\<close> other
  than the seven keywords.
\<close>

definition same_flags :: "nstate \<Rightarrow> nstate \<Rightarrow> bool" where
  "same_flags a b =
    (st_note a = st_note b \<and> st_trans a = st_trans b
     \<and> (\<forall>k \<in> set falseKeywords. st_beam a k = st_beam b k))"

text \<open>A quarter C4 that declares staccato before staccatissimo.\<close>

definition twoStaccatos :: Note where
  "twoStaccatos = (plainNote (mkPitch ''C'' 4) quarter)\<lparr> articulations := [''staccato'', ''staccatissimo''] \<rparr>"

text \<open>Example elements and groupings.\<close>

definition noClef :: Clef where
  "noClef = \<lparr> brailleEnglish = None, clef_className = ''NoClef'', clef_isNoClef = True,
               clef_isTrebleClef = False, clef_isBassClef = False, clef_sign = None, clef_line = 0 \<rparr>"

definition forte :: Dynamic where
  "forte = \<lparr> brailleEnglish = None, dyn_value = ''f'' \<rparr>"

definition dynamicThenNoClef :: Grouping where
  "dynamicThenNoClef = \<lparr> elements = [EDynamic forte, EClef noClef], descendingChords = Some True,
                          showClefSigns = Some True, upperFirstInNoteFingering = Some True \<rparr>"

definition emptyChordGrouping :: Grouping where
  "emptyChordGrouping = \<lparr> elements = [EChord (mkChord [] whole)], descendingChords = None,
                           showClefSigns = None, upperFirstInNoteFingering = None \<rparr>"


definition quarterRest :: Rest where
  "quarterRest = \<lparr> brailleEnglish = None, rest_duration = quarter \<rparr>"


text \<open>
  An object without its trace, and two objects that differ at most in the trace.
\<close>

definition withoutTrace :: "'a Music21Object_scheme \<Rightarrow> 'a Music21Object_scheme" where
  "withoutTrace x = x\<lparr> brailleEnglish := None \<rparr>"

definition only_trace :: "'a Music21Object_scheme \<Rightarrow> 'a Music21Object_scheme \<Rightarrow> bool" where
  "only_trace x x' = (withoutTrace x' = withoutTrace x)"

text \<open>
  The first loop of \<open>noteToBraille\<close> over the articulations raises \<open>KeyError\<close> when a
  staccato or staccatissimo has no entry in the table; a call that gets past it sorts the
  articulations of the note.  \<open>articulationsAfter\<close> is the list the note holds after a call.
\<close>

definition staccatoFails :: "tables \<Rightarrow> Note \<Rightarrow> bool" where
  "staccatoFails L n = list_ex (\<lambda>a. isStaccato a \<and> beforeNoteExpr L a = None) (articulations n)"

definition articulationsAfter :: "tables \<Rightarrow> Note \<Rightarrow> string list" where
  "articulationsAfter L n =
     (if staccatoFails L n then articulations n else sort_key (\<lambda>a. a) (articulations n))"

text \<open>A state of \<open>noteToBraille\<close> whose note holds another list of articulations.\<close>

definition withArticulations :: "string list \<Rightarrow> nstate \<Rightarrow> nstate" where
  "withArticulations S st = st\<lparr> st_note := (st_note st)\<lparr> articulations := S \<rparr> \<rparr>"

text \<open>
  The marks of the pitch at index \<open>i\<close> of a chord, after the base pitch, in the words of C5:
  the sign of its generic interval from the base pitch, of \<open>interval mod 8 + 1\<close> when the
  interval is 9 or more; in that case the octave mark of the pitch comes first when the pitch is
  the first after the base pitch or its interval from the pitch before it is 8 or more.  A sign
  that a table does not hold is a \<open>KeyError\<close>.
\<close>

definition octaveMark :: "tables \<Rightarrow> Pitch \<Rightarrow> error + ustring" where
  "octaveMark L p = (case octave p of None \<Rightarrow> Inl KeyError | Some k \<Rightarrow> getitem (octaves L) k)"

definition intervalMarks :: "tables \<Rightarrow> host \<Rightarrow> Pitch list \<Rightarrow> nat \<Rightarrow> error + ustring list" where
  "intervalMarks L H allPitches i =
    (let interval = genericUndirected H (allPitches ! 0) (allPitches ! i)
     in if interval \<ge> 9 then
          (if i = 1 \<or> genericUndirected H (allPitches ! (i - 1)) (allPitches ! i) \<ge> 8 then
             (case octaveMark L (allPitches ! i) of
                Inl e \<Rightarrow> Inl e
              | Inr octaveSign \<Rightarrow>
                  (case getitem (intervals L) (interval mod 8 + 1) of
                     Inl e \<Rightarrow> Inl e
                   | Inr intervalSign \<Rightarrow> Inr [octaveSign, intervalSign]))
           else
             (case getitem (intervals L) (interval mod 8 + 1) of
                Inl e \<Rightarrow> Inl e
              | Inr intervalSign \<Rightarrow> Inr [intervalSign]))
        else
          (case getitem (intervals L) interval of
             Inl e \<Rightarrow> Inl e
           | Inr intervalSign \<Rightarrow> Inr [intervalSign]))"





section \<open>Verified properties\<close>

subsection \<open>Helper lemmas\<close>

lemma split_on_sep: "sep \<notin> set a \<Longrightarrow> split_on sep (a @ sep # b) = a # split_on sep b"
  by (induction a) (auto simp: Let_def)

lemma split_on_none: "sep \<notin> set a \<Longrightarrow> split_on sep a = [a]"
  by (induction a) (auto simp: Let_def)

lemma sign_by_division: "(x::int) \<noteq> 0 \<Longrightarrow> x div \<bar>x\<bar> = (if x < 0 then - 1 else 1)"
  by (auto simp: abs_if zdiv_zminus2_eq_if)

subsection \<open>C1: the octave heuristic\<close>

text \<open>
  C1.  \<open>showOctaveWithNote\<close> is a function of the previous and the current note alone.  With
  no previous note it answers true; otherwise, with \<open>g\<close> the undirected generic interval
  between the two pitches, it answers true exactly when \<open>g \<ge> 6\<close>, or \<open>g\<close> is 4 or 5 and
  the two notes are not in the same octave.
\<close>

theorem showOctaveWithNote_rule:
  "showOctaveWithNote H None c = True \<and>
   showOctaveWithNote H (Some p) c =
     (genericUndirected H (pitch p) (pitch c) \<ge> 6 \<or>
       ((genericUndirected H (pitch p) (pitch c) = 4 \<or> genericUndirected H (pitch p) (pitch c) = 5)
         \<and> octave (pitch p) \<noteq> octave (pitch c)))"
  by (simp add: showOctaveWithNote_def Let_def)

subsection \<open>C4: cancellation naturals of a key signature\<close>

lemma opposite_sides:
  "(i = 0 \<or> j = 0 \<or> (j div \<bar>j\<bar>) \<noteq> (i div \<bar>i::int\<bar>))
     = (i = 0 \<or> j = 0 \<or> (i < 0 \<and> 0 < j) \<or> (0 < i \<and> j < 0))"
proof (cases "i = 0 \<or> j = 0")
  case True
  then show ?thesis by auto
next
  case False
  then have "i \<noteq> 0" "j \<noteq> 0" by auto
  then show ?thesis by (simp add: sign_by_division)
qed

lemma keySigToBraille_unfold:
  assumes "keySignatures L (sharps ks) = Some g"
  shows "fst (keySigToBraille L ks (Some out)) =
     (if sharps ks = 0 \<or> sharps out = 0
          \<or> (sharps out div \<bar>sharps out\<bar>) \<noteq> (sharps ks div \<bar>sharps ks\<bar>)
      then (case naturals L \<bar>sharps out\<bar> of Some ns \<Rightarrow> ns @ g | None \<Rightarrow> g)
      else if \<bar>sharps ks\<bar> \<le> \<bar>sharps out\<bar>
      then (case naturals L \<bar>sharps out - sharps ks\<bar> of Some ns \<Rightarrow> ns @ g | None \<Rightarrow> g)
      else g)"
  using assms by (simp add: keySigToBraille_def Let_def split: option.splits)

text \<open>
  C4.  Let \<open>i\<close> be the incoming and \<open>j\<close> the outgoing sharps count, with \<open>g\<close> the base
  glyph of \<open>i\<close> in \<open>keySignatures\<close>.  When \<open>i\<close> and \<open>j\<close> are on opposite sides of zero
  or either is zero, the result is the \<open>naturals\<close> entry for \<open>|j|\<close> followed by \<open>g\<close>;
  when they have the same sign and \<open>|j| \<ge> |i|\<close>, it is the entry for \<open>|j - i|\<close>
  followed by \<open>g\<close>; otherwise it is \<open>g\<close> alone.  (Where the \<open>naturals\<close> entry is
  missing the result is \<open>g\<close> alone.)
\<close>

theorem keySigToBraille_cancellation:
  assumes "keySignatures L (sharps ks) = Some g"
  shows "fst (keySigToBraille L ks (Some out)) =
     (let i = sharps ks; j = sharps out in
      if i = 0 \<or> j = 0 \<or> (i < 0 \<and> 0 < j) \<or> (0 < i \<and> j < 0)
      then (case naturals L \<bar>j\<bar> of Some ns \<Rightarrow> ns @ g | None \<Rightarrow> g)
      else if \<bar>i\<bar> \<le> \<bar>j\<bar> then (case naturals L \<bar>j - i\<bar> of Some ns \<Rightarrow> ns @ g | None \<Rightarrow> g)
      else g)"
  unfolding Let_def keySigToBraille_unfold [OF assms] opposite_sides ..

text \<open>
  Incoming 0 with outgoing -3 gives three naturals and nothing else; 1 after 3 gives two
  naturals and one sharp; 3 after 1 gives the three sharps alone; 2 sharps after 2 flats gives
  two naturals and two sharps.
\<close>

theorem keySigToBraille_cancellation_witness:
  "fst (keySigToBraille sample_tables (mkKeySig 0) (Some (mkKeySig (- 3)))) = [0x2821, 0x2821, 0x2821]
   \<and> fst (keySigToBraille sample_tables (mkKeySig 1) (Some (mkKeySig 3))) = [0x2821, 0x2821, 0x2829]
   \<and> fst (keySigToBraille sample_tables (mkKeySig 3) (Some (mkKeySig 1))) = [0x2829, 0x2829, 0x2829]
   \<and> fst (keySigToBraille sample_tables (mkKeySig 2) (Some (mkKeySig (- 2)))) = [0x2821, 0x2821, 0x2829, 0x2829]"
  using keySigToBraille_cancellation [of sample_tables "mkKeySig 0" "[]" "mkKeySig (- 3)"]
        keySigToBraille_cancellation [of sample_tables "mkKeySig 1" "[0x2829]" "mkKeySig 3"]
        keySigToBraille_cancellation [of sample_tables "mkKeySig 3" "[0x2829, 0x2829, 0x2829]" "mkKeySig 1"]
        keySigToBraille_cancellation [of sample_tables "mkKeySig 2" "[0x2829, 0x2829]" "mkKeySig (- 2)"]
  by (simp add: mkKeySig_def sample_tables_def)

subsection \<open>C7: a comma choice with an absent fingering\<close>

lemma fingerLoop2: "fingerLoop L a 0 [s, t] =
  (case fingerToken L a 0 s of Inl e \<Rightarrow> Inl e | Inr xs \<Rightarrow>
     (case fingerToken L a 1 t of Inl e \<Rightarrow> Inl e | Inr ys \<Rightarrow> Inr (xs @ ys)))"
  by (simp split: sum.splits)

lemma fingerToken_x: "fingerMarks L ''x'' = None \<Longrightarrow>
  fingerToken L True i ''x'' = Inr [if i = 0 then sym_first_set_missing_fingermark (symbols L)
     else sym_second_set_missing_fingermark (symbols L)]"
  by (simp add: fingerToken_def Let_def)

lemma transcribeNoteFingering_comma:
  assumes "split_on CHR '','' s = [a, b]" and "length s \<noteq> 1"
  shows "transcribeNoteFingering L s u = fingerChoice L u True [a, b]"
  using assms by (simp add: transcribeNoteFingering_def)

text \<open>
  C7 as stated fails: the placeholder is not fixed by the position of the absent token in the
  fingering as written.  In \<open>'x,4'\<close> the absent token is first; with \<open>upperFirst\<close> the
  placeholder is U+2820 (\<open>first_set_missing_fingermark\<close>), without it the placeholder is
  U+2804 (\<open>second_set_missing_fingermark\<close>), as the doctests of the source show.
\<close>

theorem transcribeNoteFingering_placeholder_counterexample:
  "transcribeNoteFingering sample_tables ''x,4'' True = Inr [0x2820, 0x2802]
   \<and> transcribeNoteFingering sample_tables ''x,4'' False = Inr [0x2802, 0x2804]"
  by (simp add: transcribeNoteFingering_def fingerChoice_def fingerToken_def sample_tables_def
      sample_symbols_def Let_def)

text \<open>
  C7, amended.  In a two-token comma choice where one token is the absence literal \<open>x\<close>
  and the other token \<open>t\<close> translates to the glyphs \<open>gs\<close>, the two outputs come in the
  written order when \<open>upperFirst\<close> is true and in reversed order when it is false, and the
  placeholder follows the position of the absent token after the reversal: emitted first it is
  \<open>first_set_missing_fingermark\<close>, emitted second it is \<open>second_set_missing_fingermark\<close>.
\<close>

theorem transcribeNoteFingering_absent:
  assumes "CHR '','' \<notin> set t"
      and "fingerMarks L ''x'' = None"
      and "fingerToken L True 0 t = Inr gs" and "fingerToken L True 1 t = Inr gs"
  shows "transcribeNoteFingering L (''x,'' @ t) True
           = Inr (sym_first_set_missing_fingermark (symbols L) @ concat gs)
       \<and> transcribeNoteFingering L (''x,'' @ t) False
           = Inr (concat gs @ sym_second_set_missing_fingermark (symbols L))
       \<and> transcribeNoteFingering L (t @ '',x'') True
           = Inr (concat gs @ sym_second_set_missing_fingermark (symbols L))
       \<and> transcribeNoteFingering L (t @ '',x'') False
           = Inr (sym_first_set_missing_fingermark (symbols L) @ concat gs)"
proof -
  have s1: "split_on CHR '','' (''x,'' @ t) = [''x'', t]"
    using split_on_sep [of "CHR '',''" "''x''" t] split_on_none [OF assms(1)] by simp
  have s2: "split_on CHR '','' (t @ '',x'') = [t, ''x'']"
    using split_on_sep [OF assms(1), of "''x''"] by simp
  have l1: "length (''x,'' @ t) \<noteq> 1" and l2: "length (t @ '',x'') \<noteq> 1" by simp_all
  have fl: "fingerLoop L True 0 [''x'', t] = Inr ([sym_first_set_missing_fingermark (symbols L)] @ gs)"
       "fingerLoop L True 0 [t, ''x''] = Inr (gs @ [sym_second_set_missing_fingermark (symbols L)])"
    using assms(3,4) by (simp_all add: fingerLoop2 fingerToken_x [OF assms(2)] del: fingerLoop.simps)
  show ?thesis
    unfolding transcribeNoteFingering_comma [OF s1 l1] transcribeNoteFingering_comma [OF s2 l2]
    by (simp add: fingerChoice_def fl del: fingerLoop.simps)
qed

text \<open>The change \<open>2-1\<close> beside an absent token: the doctest glyphs U+2803 U+2809 U+2801.\<close>

theorem transcribeNoteFingering_absent_witness:
  "transcribeNoteFingering sample_tables ''x,2-1'' True = Inr [0x2820, 0x2803, 0x2809, 0x2801]
   \<and> transcribeNoteFingering sample_tables ''x,2-1'' False = Inr [0x2803, 0x2809, 0x2801, 0x2804]
   \<and> transcribeNoteFingering sample_tables ''2-1,x'' True = Inr [0x2803, 0x2809, 0x2801, 0x2804]
   \<and> transcribeNoteFingering sample_tables ''2-1,x'' False = Inr [0x2820, 0x2803, 0x2809, 0x2801]"
proof -
  have h1: "CHR '','' \<notin> set ''2-1''" by simp
  have h2: "fingerMarks sample_tables ''x'' = None" by (simp add: sample_tables_def)
  have h3: "fingerToken sample_tables True 0 ''2-1'' = Inr [[0x2803], [0x2809], [0x2801]]"
   and h4: "fingerToken sample_tables True 1 ''2-1'' = Inr [[0x2803], [0x2809], [0x2801]]"
    by (simp_all add: fingerToken_def sample_tables_def sample_symbols_def Let_def)
  show ?thesis
    using transcribeNoteFingering_absent [OF h1 h2 h3 h4]
    by (simp add: sample_tables_def sample_symbols_def)
qed

subsection \<open>C2: the ASCII codec\<close>

lemma mapE_total: "(\<And>x. x \<in> set xs \<Longrightarrow> f x = Inr (g x)) \<Longrightarrow> mapE f xs = Inr (map g xs)"
  by (induction xs) auto

lemma fold_upd_other:
  "v \<notin> snd ` set t \<Longrightarrow> fold add_inverse t m v = m v"
  by (induction t arbitrary: m) (auto simp: add_inverse_def)

lemma fold_upd_found:
  "distinct (map snd t) \<Longrightarrow> (k, v) \<in> set t \<Longrightarrow> fold add_inverse t m v = Some k"
proof (induction t arbitrary: m)
  case Nil
  then show ?case by simp
next
  case (Cons a t)
  show ?case
  proof (cases "(k, v) \<in> set t")
    case True
    with Cons show ?thesis by simp
  next
    case False
    with Cons.prems have a: "a = (k, v)" by auto
    from Cons.prems have nin: "v \<notin> snd ` set t" by (simp add: a)
    have "fold add_inverse (a # t) m v = fold add_inverse t (add_inverse (k, v) m) v"
      by (simp add: a)
    also have "\<dots> = add_inverse (k, v) m v" using nin by (rule fold_upd_other)
    also have "\<dots> = Some k" by (simp add: add_inverse_def)
    finally show ?thesis .
  qed
qed


lemma is_linebreak_LF [simp]: "is_linebreak 0x0A"
  by (simp add: is_linebreak_def)

lemma splitlines_from_nonempty: "cur \<noteq> [] \<or> s \<noteq> [] \<Longrightarrow> lf_only s \<Longrightarrow> splitlines_from False cur s \<noteq> []"
  by (induction s arbitrary: cur) (auto simp: lf_only_def)

lemma join_Cons: "ys \<noteq> [] \<Longrightarrow> join sep (x # ys) = x @ sep @ join sep ys"
  by (cases ys) auto

lemma join_splitlines_from:
  "lf_only s \<Longrightarrow> s = [] \<or> last s \<noteq> 0x0A \<Longrightarrow> join [0x0A] (splitlines_from False cur s) = cur @ s"
proof (induction s arbitrary: cur)
  case Nil
  then show ?case by simp
next
  case (Cons c cs)
  have lf: "lf_only cs" using Cons.prems(1) by (simp add: lf_only_def)
  show ?case
  proof (cases "is_linebreak c")
    case True
    then have c: "c = 0x0A" using Cons.prems(1) by (simp add: lf_only_def)
    with Cons.prems(2) have ne: "cs \<noteq> []" and la: "last cs \<noteq> 0x0A" by (auto split: if_splits)
    have "join [0x0A] (splitlines_from False [] cs) = [] @ cs"
      using Cons.IH [OF lf] la by simp
    then show ?thesis
      using splitlines_from_nonempty [of "[]" cs] ne lf by (simp add: c join_Cons)
  next
    case False
    have "cs = [] \<or> last cs \<noteq> 0x0A" using Cons.prems(2) by (auto split: if_splits)
    then show ?thesis using False Cons.IH [OF lf, of "cur @ [c]"] by simp
  qed
qed

lemma splitlines_from_map:
  assumes "lf_only s"
      and "\<And>c. c \<in> set s \<Longrightarrow> is_linebreak (f c) = is_linebreak c"
      and "f 0x0A = 0x0A"
  shows "splitlines_from False (map f cur) (map f s) = map (map f) (splitlines_from False cur s)"
  using assms(1,2)
proof (induction s arbitrary: cur)
  case Nil
  then show ?case by simp
next
  case (Cons c cs)
  have lf: "lf_only cs" using Cons.prems(1) by (simp add: lf_only_def)
  have IH: "\<And>cur. splitlines_from False (map f cur) (map f cs) = map (map f) (splitlines_from False cur cs)"
    using Cons.IH [OF lf] Cons.prems(2) by simp
  show ?case
  proof (cases "is_linebreak c")
    case True
    then have c: "c = 0x0A" using Cons.prems(1) by (simp add: lf_only_def)
    show ?thesis using IH [of "[]"] by (simp add: c assms(3))
  next
    case False
    then have "\<not> is_linebreak (f c)" using Cons.prems(2) by simp
    then show ?thesis using False IH [of "cur @ [c]"] by simp
  qed
qed

lemma splitlines_from_chars:
  "l \<in> set (splitlines_from cr cur s) \<Longrightarrow> x \<in> set l \<Longrightarrow> x \<in> set cur \<or> (x \<in> set s \<and> \<not> is_linebreak x)"
proof (induction s arbitrary: cr cur)
  case Nil
  then show ?case by (auto split: if_splits)
next
  case (Cons c cs)
  then show ?case by (fastforce split: if_splits)
qed

lemma join_map: "join (map f sep) (map (map f) ls) = map f (join sep ls)"
  by (induction sep ls rule: join.induct) auto


lemma braille_chars_inverse:
  assumes "codec_table_ok (ascii_chars L)" and "(k, v) \<in> set (ascii_chars L)"
  shows "map_of (ascii_chars L) k = Some v" and "braille_chars L (upper v) = Some k"
    and "\<not> is_linebreak k" and "\<not> is_linebreak v"
proof -
  from assms show "map_of (ascii_chars L) k = Some v"
    by (simp add: codec_table_ok_def)
  from assms have "upper v = v" by (auto simp: codec_table_ok_def)
  moreover from assms have "fold add_inverse (ascii_chars L) Map.empty v = Some k"
    by (intro fold_upd_found) (simp_all add: codec_table_ok_def)
  ultimately show "braille_chars L (upper v) = Some k" by (simp add: braille_chars_def)
  from assms show "\<not> is_linebreak k" "\<not> is_linebreak v" by (auto simp: codec_table_ok_def)
qed

lemma enc_LF: "enc_char L 0x0A = 0x0A"
  by (simp add: enc_char_def)

lemma mapE_map: "mapE f (map g xs) = mapE (f \<circ> g) xs"
  by (induction xs) (simp_all split: sum.splits)

lemma table_item:
  assumes "codec_table_ok (ascii_chars L)" and "(x, v) \<in> set (ascii_chars L)"
  shows "x \<noteq> 0x0A" and "v \<noteq> 0x0A" and "enc_char L x = v"
    and "getitem (map_of (ascii_chars L)) x = Inr v"
    and "getitem (braille_chars L) (upper v) = Inr x"
proof -
  note f = braille_chars_inverse [OF assms]
  from f(3) show x: "x \<noteq> 0x0A" by (rule contrapos_nn) simp
  from f(4) show "v \<noteq> 0x0A" by (rule contrapos_nn) simp
  from f(1) x show "enc_char L x = v" by (simp add: enc_char_def)
  from f(1) show "getitem (map_of (ascii_chars L)) x = Inr v" by (simp add: getitem_def)
  from f(2) show "getitem (braille_chars L) (upper v) = Inr x" by (simp add: getitem_def)
qed

lemma line_char:
  assumes "\<forall>c \<in> set s. c = 0x0A \<or> c \<in> fst ` set (ascii_chars L)"
      and "l \<in> set (splitlines s)" and "x \<in> set l"
  obtains v where "(x, v) \<in> set (ascii_chars L)"
proof -
  from assms(2,3) have "x \<in> set s" "\<not> is_linebreak x"
    using splitlines_from_chars [of l False "[]" s x] by (simp_all add: splitlines_def)
  then have "x \<in> set s" "x \<noteq> 0x0A" by auto
  with assms(1) have "x \<in> fst ` set (ascii_chars L)" by blast
  then obtain v where "(x, v) \<in> set (ascii_chars L)" by force
  then show ?thesis by (rule that)
qed

lemma table_lf_only:
  fixes L :: tables
  assumes ok: "codec_table_ok (ascii_chars L)"
      and cells: "\<forall>c \<in> set s. c = 0x0A \<or> c \<in> fst ` set (ascii_chars L)"
  shows "lf_only s"
  unfolding lf_only_def
proof (intro ballI impI)
  fix c assume c: "c \<in> set s" "is_linebreak c"
  show "c = 0x0A"
  proof (rule ccontr)
    assume "c \<noteq> 0x0A"
    with cells c(1) have "c \<in> fst ` set (ascii_chars L)" by blast
    then obtain v where "(c, v) \<in> set (ascii_chars L)" by force
    from braille_chars_inverse(3) [OF ok this] c(2) show False by simp
  qed
qed

lemma encode_string:
  assumes ok: "codec_table_ok (ascii_chars L)"
      and cells: "\<forall>c \<in> set s. c = 0x0A \<or> c \<in> fst ` set (ascii_chars L)"
      and noend: "s = [] \<or> last s \<noteq> 0x0A"
  shows "brailleUnicodeToBrailleAscii L s = Inr (map (enc_char L) s)"
proof -
  have lf: "lf_only s" using ok cells by (rule table_lf_only)
  have line: "mapE (\<lambda>char. getitem (map_of (ascii_chars L)) char) l = Inr (map (enc_char L) l)"
    if l: "l \<in> set (splitlines s)" for l
  proof (rule mapE_total)
    fix x assume "x \<in> set l"
    with cells l obtain v where kv: "(x, v) \<in> set (ascii_chars L)" by (rule line_char)
    from table_item(3,4) [OF ok kv]
    show "getitem (map_of (ascii_chars L)) x = Inr (enc_char L x)" by simp
  qed
  have "mapE (\<lambda>sampleLine. mapE (\<lambda>char. getitem (map_of (ascii_chars L)) char) sampleLine)
          (splitlines s) = Inr (map (map (enc_char L)) (splitlines s))"
    by (rule mapE_total) (rule line)
  moreover have "join [0x0A] (map (map (enc_char L)) (splitlines s)) = map (enc_char L) s"
    using join_map [of "enc_char L" "[0x0A]" "splitlines s"] join_splitlines_from [OF lf noend, of "[]"]
    by (simp add: splitlines_def enc_LF)
  ultimately show ?thesis by (simp add: brailleUnicodeToBrailleAscii_def)
qed

lemma decode_string:
  assumes ok: "codec_table_ok (ascii_chars L)"
      and cells: "\<forall>c \<in> set s. c = 0x0A \<or> c \<in> fst ` set (ascii_chars L)"
      and noend: "s = [] \<or> last s \<noteq> 0x0A"
  shows "brailleAsciiToBrailleUnicode L (map (enc_char L) s) = Inr s"
proof -
  have lf: "lf_only s" using ok cells by (rule table_lf_only)
  have pres: "is_linebreak (enc_char L c) = is_linebreak c" if "c \<in> set s" for c
  proof (cases "c = 0x0A")
    case True
    then show ?thesis by (simp add: enc_LF)
  next
    case False
    with cells that have "c \<in> fst ` set (ascii_chars L)" by blast
    then obtain v where kv: "(c, v) \<in> set (ascii_chars L)" by force
    from braille_chars_inverse(3,4) [OF ok kv] table_item(3) [OF ok kv] show ?thesis by simp
  qed
  have sp: "splitlines (map (enc_char L) s) = map (map (enc_char L)) (splitlines s)"
    using splitlines_from_map [OF lf pres enc_LF, of "[]"] by (simp add: splitlines_def)
  have line: "mapE (\<lambda>char. getitem (braille_chars L) (upper char)) (map (enc_char L) l) = Inr l"
    if l: "l \<in> set (splitlines s)" for l
  proof -
    have "mapE ((\<lambda>char. getitem (braille_chars L) (upper char)) \<circ> enc_char L) l = Inr (map (\<lambda>x. x) l)"
    proof (rule mapE_total)
      fix x assume "x \<in> set l"
      with cells l obtain v where kv: "(x, v) \<in> set (ascii_chars L)" by (rule line_char)
      from table_item(3,5) [OF ok kv]
      show "((\<lambda>char. getitem (braille_chars L) (upper char)) \<circ> enc_char L) x = Inr x" by simp
    qed
    then show ?thesis by (simp add: mapE_map)
  qed
  have "mapE ((\<lambda>sampleLine. mapE (\<lambda>char. getitem (braille_chars L) (upper char)) sampleLine)
               \<circ> map (enc_char L)) (splitlines s) = Inr (map (\<lambda>l. l) (splitlines s))"
  proof (rule mapE_total)
    fix l assume "l \<in> set (splitlines s)"
    from line [OF this]
    show "((\<lambda>sampleLine. mapE (\<lambda>char. getitem (braille_chars L) (upper char)) sampleLine)
             \<circ> map (enc_char L)) l = Inr l"
      by simp
  qed
  then have "mapE (\<lambda>sampleLine. mapE (\<lambda>char. getitem (braille_chars L) (upper char)) sampleLine)
          (map (map (enc_char L)) (splitlines s)) = Inr (splitlines s)"
    by (simp add: mapE_map)
  moreover have "join [0x0A] (splitlines s) = s"
    using join_splitlines_from [OF lf noend, of "[]"] by (simp add: splitlines_def)
  ultimately show ?thesis by (simp add: brailleAsciiToBrailleUnicode_def sp)
qed

text \<open>
  C2, amended.  For a table that is a bijection between cells and canonical-case ASCII
  characters (\<open>codec_table_ok\<close>): decoding the encoding of a cell of the table gives the
  cell back, and decoding the encoding of a string \<open>s\<close> of cells of the table and LF gives
  \<open>s\<close> back whenever \<open>s\<close> does not end in LF; neither call raises.
\<close>

theorem codec_round_trip:
  assumes ok: "codec_table_ok (ascii_chars L)"
  shows "(\<forall>c \<in> fst ` set (ascii_chars L). asciiRoundTrip L [c] = Inr [c])
       \<and> ((\<forall>c \<in> set s. c = 0x0A \<or> c \<in> fst ` set (ascii_chars L)) \<and> (s = [] \<or> last s \<noteq> 0x0A)
            \<longrightarrow> asciiRoundTrip L s = Inr s)"
proof (intro conjI ballI impI)
  have rt: "asciiRoundTrip L s = Inr s"
    if "\<forall>c \<in> set s. c = 0x0A \<or> c \<in> fst ` set (ascii_chars L)" "s = [] \<or> last s \<noteq> 0x0A" for s
    using encode_string [OF ok that] decode_string [OF ok that] by (simp add: asciiRoundTrip_def)
  {
    fix c assume c: "c \<in> fst ` set (ascii_chars L)"
    then obtain v where "(c, v) \<in> set (ascii_chars L)" by force
    from table_item(1) [OF ok this] have "[c] = [] \<or> last [c] \<noteq> 0x0A" by simp
    moreover from c have "\<forall>x \<in> set [c]. x = 0x0A \<or> x \<in> fst ` set (ascii_chars L)" by simp
    ultimately show "asciiRoundTrip L [c] = Inr [c]" by (rule rt [rotated])
  }
  assume "(\<forall>c \<in> set s. c = 0x0A \<or> c \<in> fst ` set (ascii_chars L)) \<and> (s = [] \<or> last s \<noteq> 0x0A)"
  then show "asciiRoundTrip L s = Inr s" using rt by blast
qed


lemma sample_ok: "codec_table_ok (ascii_chars sample_tables)"
  by (simp add: codec_table_ok_def sample_tables_def braille_ascii_def is_linebreak_def upper_def
      upt_rec [of _ "numeral _"])

text \<open>
  C2 as stated fails for a multi-line string that ends in a line boundary: \<open>splitlines\<close>
  drops the final boundary and \<open>join\<close> does not put it back.  The cell U+2801 followed by
  LF comes back as the cell alone.
\<close>

theorem codec_round_trip_counterexample:
  "asciiRoundTrip sample_tables [0x2801, 0x0A] = Inr [0x2801]
   \<and> asciiRoundTrip sample_tables [0x2801, 0x0A] \<noteq> Inr [0x2801, 0x0A]"
  by (simp add: asciiRoundTrip_def brailleUnicodeToBrailleAscii_def brailleAsciiToBrailleUnicode_def
     splitlines_def is_linebreak_def upper_def getitem_def braille_chars_def add_inverse_def
     sample_tables_def braille_ascii_def upt_rec [of _ "numeral _"])

text \<open>One cell, and a three-line string with an empty line in the middle.\<close>

theorem codec_round_trip_witness:
  "asciiRoundTrip sample_tables [0x2829] = Inr [0x2829]
   \<and> asciiRoundTrip sample_tables [0x2801, 0x0A, 0x0A, 0x2803, 0x2839] = Inr [0x2801, 0x0A, 0x0A, 0x2803, 0x2839]"
proof -
  have cells: "\<forall>c \<in> set [0x2801, 0x0A, 0x0A, 0x2803, 0x2839]. c = 0x0A \<or> c \<in> fst ` set (ascii_chars sample_tables)"
    by (simp add: sample_tables_def braille_ascii_def upt_rec [of _ "numeral _"])
  have cell: "0x2829 \<in> fst ` set (ascii_chars sample_tables)"
    by (simp add: sample_tables_def braille_ascii_def upt_rec [of _ "numeral _"])
  have noend: "[0x2801, 0x0A, 0x0A, 0x2803, 0x2839] = [] \<or> last [0x2801, 0x0A, 0x0A, 0x2803, 0x2839] \<noteq> (0x0A::nat)"
    by simp
  from codec_round_trip [OF sample_ok, of "[0x2801, 0x0A, 0x0A, 0x2803, 0x2839]"] cells cell noend
  show ?thesis by blast
qed

subsection \<open>Evaluating the table instance\<close>

lemma sample_intervals:
  "intervals sample_tables = map_of [(2, [0x280C]), (3, [0x282C]), (4, [0x283C]), (5, [0x2814]),
                          (6, [0x2834]), (7, [0x2812]), (8, [0x2824])]"
  by (simp only: sample_tables_def tables.simps)

lemma sample_octaves:
  "octaves sample_tables = map_of [(1, [0x2808]), (2, [0x2818]), (3, [0x2838]), (4, [0x2810]),
                        (5, [0x2828]), (6, [0x2830]), (7, [0x2820])]"
  by (simp only: sample_tables_def tables.simps)

lemma sample_generic:
  "genericUndirected sample_host (mkPitch s1 o1) (mkPitch s2 o2)
     = nat \<bar>stepNum s2 + 7 * o2 - (stepNum s1 + 7 * o1)\<bar> + 1"
  by (simp add: sample_host_def mkPitch_def diatonicNoteNum_def implicitOctave_def)

lemma stepNum_simps:
  "stepNum ''C'' = 0" "stepNum ''D'' = 1" "stepNum ''E'' = 2" "stepNum ''F'' = 3"
  "stepNum ''G'' = 4" "stepNum ''A'' = 5" "stepNum ''B'' = 6"
  by (simp_all add: stepNum_def)

subsection \<open>C6: the order of the marks before a note\<close>




lemma note_frame_log: "note_frame st (note_log e st)"
  unfolding note_frame_def note_log_def trace_append_def
  by (intro conjI exI [of _ "[]"] exI) simp_all

lemma flag_emit [simp]: "flag (emit g e st) k = flag st k"
  by (simp add: flag_def emit_def)









lemma setBeamStatus_key:
  "k \<in> set falseKeywords \<Longrightarrow>
     setBeamStatus bs n k = Some (case getattr_flag n k of Some v \<Rightarrow> v | None \<Rightarrow> False)"
  by (auto simp: setBeamStatus_def falseKeywords_def)













lemma sample_beforeNoteExpr:
  "beforeNoteExpr sample_tables = map_of [(''staccato'', [0x2826]), (''accent'', [0x2828, 0x2826]),
                               (''tenuto'', [0x2838, 0x2826]), (''staccatissimo'', [0x2820, 0x2826])]"
  by (simp only: sample_tables_def tables.simps)

lemma sample_accidentals:
  "accidentals sample_tables = map_of [(''sharp'', [0x2829]), (''flat'', [0x2823]), (''natural'', [0x2821])]"
  by (simp only: sample_tables_def tables.simps)

lemma sample_pitchNameToNotes_C:
  "pitchNameToNotes sample_tables ''C''
     = Some (map_of [(''eighth'', [0x2819]), (''quarter'', [0x2839]), (''half'', [0x281D]), (''whole'', [0x283D])])"
  by (simp add: sample_tables_def)

lemma sample_sym: "symbols sample_tables = sample_symbols"
  by (simp only: sample_tables_def tables.simps)


lemma tripletNote_braille:
  "fst (noteToBraille sample_tables Map.empty tripletNote True True)
     = Inr [0x2806, 0x2826, 0x2828, 0x2826, 0x2838, 0x2826, 0x2829, 0x2810, 0x2819]"
  by (simp add: noteToBraille_def noteToBrailleState_def tripletNote_def plainNote_def Let_def
      noteOpeningSlurs_def noteTriplet_def noteArticulations_def noteAccidental_def noteOctave_def
      noteNameDuration_def noteFingering_def noteClosingSlurs_def noteTie_def flag_def emit_def
      setBeamStatus_def falseKeywords_def getattr_flag_def isStaccato_def
      sample_beforeNoteExpr sample_accidentals sample_pitchNameToNotes_C sample_sym sample_symbols_def
      sample_octaves trace_append_def)

subsection \<open>The objects as a call leaves them\<close>

lemma withoutTrace_upd [simp]: "withoutTrace (x\<lparr> brailleEnglish := t \<rparr>) = withoutTrace x"
  by (simp add: withoutTrace_def)

lemma withoutTrace_append [simp]: "withoutTrace (trace_append es x) = withoutTrace x"
  by (simp add: withoutTrace_def trace_append_def)

lemma withoutTrace_insert0 [simp]: "withoutTrace (trace_insert0 e x) = withoutTrace x"
  by (simp add: withoutTrace_def trace_insert0_def)

lemma withoutTrace_articulations:
  "withoutTrace (n\<lparr> articulations := ys \<rparr>) = (withoutTrace n)\<lparr> articulations := ys \<rparr>"
  by (simp add: withoutTrace_def)

lemma withoutTrace_eqD:
  "withoutTrace a = withoutTrace b \<Longrightarrow> a = b\<lparr> brailleEnglish := brailleEnglish a \<rparr>"
  by (cases a, cases b) (simp add: withoutTrace_def)

lemma articulations_withoutTrace [simp]: "articulations (withoutTrace n) = articulations n"
  by (simp add: withoutTrace_def)

lemma wt_emit [simp]: "withoutTrace (st_note (emit g e st)) = withoutTrace (st_note st)"
  by (simp add: emit_def)

lemma wt_log [simp]: "withoutTrace (st_note (note_log e st)) = withoutTrace (st_note st)"
  by (simp add: note_log_def)

lemma wt_openingSlurs [simp]:
  "withoutTrace (st_note (noteOpeningSlurs L st)) = withoutTrace (st_note st)"
  by (simp add: noteOpeningSlurs_def Let_def)

lemma wt_triplet [simp]: "withoutTrace (st_note (noteTriplet L st)) = withoutTrace (st_note st)"
  by (simp add: noteTriplet_def Let_def)

lemma wt_staccatoLoop [simp]:
  "withoutTrace (st_note (snd (staccatoLoop L artcs st))) = withoutTrace (st_note st)"
  by (induction L artcs st rule: staccatoLoop.induct) (simp_all split: option.splits)

lemma wt_otherLoop [simp]:
  "withoutTrace (st_note (otherArticulationsLoop L artcs st)) = withoutTrace (st_note st)"
  by (induction L artcs st rule: otherArticulationsLoop.induct) (simp_all split: option.splits)

lemma wt_accidental [simp]: "withoutTrace (st_note (noteAccidental L st)) = withoutTrace (st_note st)"
  by (simp add: noteAccidental_def split: option.splits)

lemma wt_octave [simp]: "withoutTrace (st_note (noteOctave L so st)) = withoutTrace (st_note st)"
  by (simp add: noteOctave_def split: option.splits)

lemma wt_dotLoop [simp]: "withoutTrace (st_note (dotLoop L k st)) = withoutTrace (st_note st)"
  by (induction k arbitrary: st) simp_all

lemma wt_nameDuration [simp]:
  "withoutTrace (st_note (snd (noteNameDuration L st))) = withoutTrace (st_note st)"
  by (simp add: noteNameDuration_def Let_def split: option.splits)

lemma wt_fingering [simp]: "withoutTrace (st_note (noteFingering L uf st)) = withoutTrace (st_note st)"
  by (simp add: noteFingering_def split: option.splits sum.splits)

lemma wt_closingSlurs [simp]:
  "withoutTrace (st_note (noteClosingSlurs L st)) = withoutTrace (st_note st)"
  by (simp add: noteClosingSlurs_def Let_def)

lemma wt_tie [simp]: "withoutTrace (st_note (noteTie L st)) = withoutTrace (st_note st)"
  by (simp add: noteTie_def split: option.splits)

lemma staccatoLoop_fails:
  "fst (staccatoLoop L artcs st) = (if list_ex (\<lambda>a. isStaccato a \<and> beforeNoteExpr L a = None) artcs
                                    then Some KeyError else None)"
  by (induction L artcs st rule: staccatoLoop.induct) (simp_all split: option.splits)

lemma wt_articulations:
  "withoutTrace (st_note (snd (noteArticulations L st)))
     = (withoutTrace (st_note st))\<lparr> articulations := articulationsAfter L (st_note st) \<rparr>
   \<and> fst (noteArticulations L st) = (if staccatoFails L (st_note st) then Some KeyError else None)"
proof (cases "articulations (st_note st) = []")
  case True
  then have "withoutTrace (st_note st) = (withoutTrace (st_note st))\<lparr> articulations := [] \<rparr>"
    by (simp add: withoutTrace_def)
  with True show ?thesis
    by (simp add: noteArticulations_def articulationsAfter_def staccatoFails_def)
next
  case False
  let ?xs = "articulations (st_note st)"
  obtain e st1 where s: "staccatoLoop L ?xs st = (e, st1)" by (cases "staccatoLoop L ?xs st")
  from wt_staccatoLoop [of L ?xs st] s
  have w1: "withoutTrace (st_note st1) = withoutTrace (st_note st)" by simp
  then have a1: "articulations (st_note st1) = ?xs"
    by (metis articulations_withoutTrace)
  from staccatoLoop_fails [of L ?xs st] s
  have e: "e = (if staccatoFails L (st_note st) then Some KeyError else None)"
    by (simp add: staccatoFails_def)
  show ?thesis
  proof (cases "staccatoFails L (st_note st)")
    case True
    with e have "e = Some KeyError" by simp
    moreover have "withoutTrace (st_note st) = (withoutTrace (st_note st))\<lparr> articulations := ?xs \<rparr>"
      by (simp add: withoutTrace_def)
    ultimately show ?thesis
      using False s w1 True by (simp add: noteArticulations_def articulationsAfter_def)
  next
    case nf: False
    with e have "e = None" by simp
    then show ?thesis
      using False s w1 a1 nf
      by (simp add: noteArticulations_def articulationsAfter_def Let_def withoutTrace_articulations)
  qed
qed

lemma note_left_state:
  "withoutTrace (st_note (snd (noteToBrailleState L bs n so uf)))
     = (withoutTrace n)\<lparr> articulations := articulationsAfter L n \<rparr>"
proof -
  let ?st0 = "\<lparr> st_note = n\<lparr> brailleEnglish := Some [] \<rparr>, st_beam = setBeamStatus bs n,
                st_trans = [] \<rparr>"
  let ?st2 = "noteTriplet L (noteOpeningSlurs L ?st0)"
  have w2: "withoutTrace (st_note ?st2) = withoutTrace n" by simp
  then have n2: "st_note ?st2 = n\<lparr> brailleEnglish := brailleEnglish (st_note ?st2) \<rparr>"
    by (rule withoutTrace_eqD)
  have aa: "articulationsAfter L (st_note ?st2) = articulationsAfter L n"
    by (subst n2) (simp add: articulationsAfter_def staccatoFails_def)
  obtain e st3 where a: "noteArticulations L ?st2 = (e, st3)" by (cases "noteArticulations L ?st2")
  from wt_articulations [of L ?st2] a w2 aa
  have w3: "withoutTrace (st_note st3) = (withoutTrace n)\<lparr> articulations := articulationsAfter L n \<rparr>"
    by simp
  let ?st5 = "noteOctave L so (noteAccidental L st3)"
  obtain r st6 where d: "noteNameDuration L ?st5 = (r, st6)" by (cases "noteNameDuration L ?st5")
  from wt_nameDuration [of L ?st5] d have w6: "withoutTrace (st_note st6) = withoutTrace (st_note st3)"
    by simp
  show ?thesis
    using a d w3 w6 by (simp add: noteToBrailleState_def Let_def split: option.splits)
qed

lemma note_left:
  "withoutTrace (fst (snd (noteToBraille L bs n so uf)))
     = (withoutTrace n)\<lparr> articulations := articulationsAfter L n \<rparr>"
  using note_left_state [of L bs n so uf]
  by (cases "noteToBrailleState L bs n so uf") (simp add: noteToBraille_def)

subsection \<open>C10: the shared table of beam and slur flags\<close>

lemma same_flags_flag: "same_flags a b \<Longrightarrow> k \<in> set falseKeywords \<Longrightarrow> flag a k = flag b k"
  by (simp add: same_flags_def flag_def)

lemma same_flags_lits:
  assumes "same_flags a b"
  shows "flag a ''beginLongBracketSlur'' = flag b ''beginLongBracketSlur''"
    and "flag a ''endLongBracketSlur'' = flag b ''endLongBracketSlur''"
    and "flag a ''beginLongDoubleSlur'' = flag b ''beginLongDoubleSlur''"
    and "flag a ''endLongDoubleSlur'' = flag b ''endLongDoubleSlur''"
    and "flag a ''shortSlur'' = flag b ''shortSlur''"
    and "flag a ''beamStart'' = flag b ''beamStart''"
    and "flag a ''beamContinue'' = flag b ''beamContinue''"
  by (rule same_flags_flag [OF assms], simp add: falseKeywords_def)+

lemma same_flags_emit: "same_flags a b \<Longrightarrow> same_flags (emit g e a) (emit g e b)"
  by (simp add: same_flags_def emit_def)

lemma same_flags_log: "same_flags a b \<Longrightarrow> same_flags (note_log e a) (note_log e b)"
  by (simp add: same_flags_def note_log_def)

lemma same_flags_note: "same_flags a b \<Longrightarrow> st_note a = st_note b"
  by (simp add: same_flags_def)

lemma same_flags_trans: "same_flags a b \<Longrightarrow> st_trans a = st_trans b"
  by (simp add: same_flags_def)

lemma sf_openingSlurs: "same_flags a b \<Longrightarrow> same_flags (noteOpeningSlurs L a) (noteOpeningSlurs L b)"
  by (simp add: noteOpeningSlurs_def Let_def same_flags_lits same_flags_emit)

lemma sf_triplet: "same_flags a b \<Longrightarrow> same_flags (noteTriplet L a) (noteTriplet L b)"
  by (auto simp: noteTriplet_def Let_def same_flags_lits same_flags_emit same_flags_note)
     (simp add: same_flags_def)

lemma sf_staccatoLoop:
  "same_flags a b \<Longrightarrow>
     fst (staccatoLoop L artcs a) = fst (staccatoLoop L artcs b)
     \<and> same_flags (snd (staccatoLoop L artcs a)) (snd (staccatoLoop L artcs b))"
  by (induction artcs arbitrary: a b) (auto simp: same_flags_emit split: option.splits)

lemma sf_otherLoop:
  "same_flags a b \<Longrightarrow>
     same_flags (otherArticulationsLoop L artcs a) (otherArticulationsLoop L artcs b)"
  by (induction artcs arbitrary: a b) (auto simp: same_flags_emit split: option.splits)

lemma sf_articulations:
  assumes "same_flags a b"
  shows "fst (noteArticulations L a) = fst (noteArticulations L b)
     \<and> same_flags (snd (noteArticulations L a)) (snd (noteArticulations L b))"
proof -
  note n = same_flags_note [OF assms]
  let ?arts = "articulations (st_note b)"
  from sf_staccatoLoop [OF assms, of L ?arts]
  have s: "fst (staccatoLoop L ?arts a) = fst (staccatoLoop L ?arts b)"
      "same_flags (snd (staccatoLoop L ?arts a)) (snd (staccatoLoop L ?arts b))"
    by simp_all
  obtain ea sa where a: "staccatoLoop L ?arts a = (ea, sa)" by (cases "staccatoLoop L ?arts a")
  obtain eb sb where b: "staccatoLoop L ?arts b = (eb, sb)" by (cases "staccatoLoop L ?arts b")
  from s a b have e: "ea = eb" and sf: "same_flags sa sb" by simp_all
  have sf2: "same_flags (sa\<lparr> st_note := (st_note sa)\<lparr> articulations := xs \<rparr> \<rparr>)
                        (sb\<lparr> st_note := (st_note sb)\<lparr> articulations := xs \<rparr> \<rparr>)" for xs
    using sf by (simp add: same_flags_def)
  show ?thesis
    using assms sf e sf_otherLoop [OF sf2] same_flags_note [OF sf]
    by (simp add: noteArticulations_def n a b Let_def split: option.splits)
qed

lemma sf_accidental: "same_flags a b \<Longrightarrow> same_flags (noteAccidental L a) (noteAccidental L b)"
  by (auto simp: noteAccidental_def same_flags_note same_flags_emit split: option.splits)

lemma sf_octave: "same_flags a b \<Longrightarrow> same_flags (noteOctave L so a) (noteOctave L so b)"
  by (auto simp: noteOctave_def same_flags_note same_flags_emit split: option.splits)

lemma sf_dotLoop: "same_flags a b \<Longrightarrow> same_flags (dotLoop L k a) (dotLoop L k b)"
  by (induction k arbitrary: a b) (auto simp: same_flags_emit)

lemma sf_nameDuration:
  assumes "same_flags a b"
  shows "fst (noteNameDuration L a) = fst (noteNameDuration L b)
     \<and> same_flags (snd (noteNameDuration L a)) (snd (noteNameDuration L b))"
  using assms
  by (auto simp: noteNameDuration_def Let_def same_flags_note [OF assms] same_flags_lits [OF assms]
      same_flags_emit same_flags_log sf_dotLoop split: option.splits)

lemma sf_fingering: "same_flags a b \<Longrightarrow> same_flags (noteFingering L uf a) (noteFingering L uf b)"
  by (auto simp: noteFingering_def same_flags_note split: option.splits sum.splits)
     (simp_all add: same_flags_def)

lemma sf_closingSlurs: "same_flags a b \<Longrightarrow> same_flags (noteClosingSlurs L a) (noteClosingSlurs L b)"
  by (simp add: noteClosingSlurs_def Let_def same_flags_lits same_flags_emit)

lemma sf_tie: "same_flags a b \<Longrightarrow> same_flags (noteTie L a) (noteTie L b)"
  by (auto simp: noteTie_def same_flags_note same_flags_emit split: option.splits)


lemma setBeamStatus_trace:
  "k \<in> set falseKeywords \<Longrightarrow>
     setBeamStatus bs (n\<lparr> brailleEnglish := t \<rparr>) k = setBeamStatus bs' n k"
  by (simp add: setBeamStatus_key getattr_flag_def)

lemma noteToBrailleState_same:
  assumes "same_flags a b"
  shows "(case noteArticulations L (noteTriplet L (noteOpeningSlurs L a)) of
            (Some e, st3) \<Rightarrow> Inl e
          | (None, st3) \<Rightarrow>
              (case noteNameDuration L (noteOctave L so (noteAccidental L st3)) of
                 (Some r, st6) \<Rightarrow> r
               | (None, st6) \<Rightarrow>
                   Inr (concat (st_trans (noteTie L (noteClosingSlurs L (noteFingering L uf st6)))))))
       = (case noteArticulations L (noteTriplet L (noteOpeningSlurs L b)) of
            (Some e, st3) \<Rightarrow> Inl e
          | (None, st3) \<Rightarrow>
              (case noteNameDuration L (noteOctave L so (noteAccidental L st3)) of
                 (Some r, st6) \<Rightarrow> r
               | (None, st6) \<Rightarrow>
                   Inr (concat (st_trans (noteTie L (noteClosingSlurs L (noteFingering L uf st6)))))))"
proof -
  let ?a2 = "noteTriplet L (noteOpeningSlurs L a)" and ?b2 = "noteTriplet L (noteOpeningSlurs L b)"
  have sf2: "same_flags ?a2 ?b2" by (intro sf_triplet sf_openingSlurs assms)
  obtain ea a3 where a3: "noteArticulations L ?a2 = (ea, a3)" by (cases "noteArticulations L ?a2")
  obtain eb b3 where b3: "noteArticulations L ?b2 = (eb, b3)" by (cases "noteArticulations L ?b2")
  from sf_articulations [OF sf2, of L] a3 b3 have e3: "ea = eb" and sf3: "same_flags a3 b3"
    by simp_all
  let ?a5 = "noteOctave L so (noteAccidental L a3)" and ?b5 = "noteOctave L so (noteAccidental L b3)"
  have sf5: "same_flags ?a5 ?b5" by (intro sf_octave sf_accidental sf3)
  obtain ra a6 where a6: "noteNameDuration L ?a5 = (ra, a6)" by (cases "noteNameDuration L ?a5")
  obtain rb b6 where b6: "noteNameDuration L ?b5 = (rb, b6)" by (cases "noteNameDuration L ?b5")
  from sf_nameDuration [OF sf5, of L] a6 b6 have e6: "ra = rb" and sf6: "same_flags a6 b6"
    by simp_all
  have "same_flags (noteTie L (noteClosingSlurs L (noteFingering L uf a6)))
                   (noteTie L (noteClosingSlurs L (noteFingering L uf b6)))"
    by (intro sf_tie sf_closingSlurs sf_fingering sf6)
  then have t9: "st_trans (noteTie L (noteClosingSlurs L (noteFingering L uf a6)))
               = st_trans (noteTie L (noteClosingSlurs L (noteFingering L uf b6)))"
    by (rule same_flags_trans)
  show ?thesis
    by (simp add: a3 b3 e3 a6 b6 e6 t9 split: option.splits)
qed

lemma noteToBraille_independent:
  "fst (noteToBraille L bs n showOctave uf)
     = fst (noteToBraille L bs' (n\<lparr> brailleEnglish := t \<rparr>) showOctave uf)"
proof -
  let ?a = "\<lparr> st_note = n\<lparr> brailleEnglish := Some [] \<rparr>, st_beam = setBeamStatus bs n,
              st_trans = [] \<rparr>"
  let ?b = "\<lparr> st_note = n\<lparr> brailleEnglish := Some [] \<rparr>,
              st_beam = setBeamStatus bs' (n\<lparr> brailleEnglish := t \<rparr>), st_trans = [] \<rparr>"
  have sf: "same_flags ?a ?b"
    by (simp add: same_flags_def setBeamStatus_trace [where bs = bs' and bs' = bs and n = n and t = t])
  have "fst (noteToBraille L bs m showOctave uf)
      = (case noteArticulations L (noteTriplet L (noteOpeningSlurs L
                \<lparr> st_note = m\<lparr> brailleEnglish := Some [] \<rparr>, st_beam = setBeamStatus bs m,
                  st_trans = [] \<rparr>)) of
            (Some e, st3) \<Rightarrow> Inl e
          | (None, st3) \<Rightarrow>
              (case noteNameDuration L (noteOctave L showOctave (noteAccidental L st3)) of
                 (Some r, st6) \<Rightarrow> r
               | (None, st6) \<Rightarrow>
                   Inr (concat (st_trans (noteTie L (noteClosingSlurs L (noteFingering L uf st6)))))))"
    for bs m
    by (simp add: noteToBraille_def noteToBrailleState_def Let_def split: prod.splits option.splits)
  then show ?thesis
    using noteToBrailleState_same [OF sf, where L = L and so = showOctave and uf = uf] by simp
qed

lemma flag_wa [simp]: "flag (withArticulations S st) k = flag st k"
  by (simp add: flag_def withArticulations_def)

lemma wa_emit: "emit g e (withArticulations S st) = withArticulations S (emit g e st)"
  by (simp add: emit_def withArticulations_def trace_append_def)

lemma wa_openingSlurs:
  "noteOpeningSlurs L (withArticulations S st) = withArticulations S (noteOpeningSlurs L st)"
  by (simp add: noteOpeningSlurs_def Let_def wa_emit)

lemma wa_triplet: "noteTriplet L (withArticulations S st) = withArticulations S (noteTriplet L st)"
  by (simp add: noteTriplet_def Let_def wa_emit) (simp add: withArticulations_def)

lemma staccatoLoop_filter: "staccatoLoop L artcs st = staccatoLoop L (filter isStaccato artcs) st"
  by (induction L artcs st rule: staccatoLoop.induct) (simp_all split: option.splits)

lemma wa_staccatoLoop:
  "staccatoLoop L artcs (withArticulations S st)
     = (fst (staccatoLoop L artcs st), withArticulations S (snd (staccatoLoop L artcs st)))"
  by (induction L artcs st rule: staccatoLoop.induct) (simp_all add: wa_emit split: option.splits)

lemma sorted_articulations:
  assumes f: "filter isStaccato (sort_key (\<lambda>a. a) (articulations (st_note st)))
                = filter isStaccato (articulations (st_note st))"
  shows "fst (noteArticulations L (withArticulations (sort_key (\<lambda>a. a) (articulations (st_note st))) st))
           = fst (noteArticulations L st)
       \<and> (fst (noteArticulations L st) = None \<longrightarrow>
            snd (noteArticulations L (withArticulations (sort_key (\<lambda>a. a) (articulations (st_note st))) st))
              = snd (noteArticulations L st))"
proof (cases "articulations (st_note st) = []")
  case True
  then have "withArticulations (sort_key (\<lambda>a. a) (articulations (st_note st))) st = st"
    by (simp add: withArticulations_def)
  then show ?thesis by simp
next
  case False
  let ?xs = "articulations (st_note st)"
  let ?S = "sort_key (\<lambda>a. a) ?xs"
  have ne: "?S \<noteq> []" using False by (metis length_sort length_0_conv)
  obtain e st1 where s: "staccatoLoop L ?xs st = (e, st1)" by (cases "staccatoLoop L ?xs st")
  have "staccatoLoop L ?S (withArticulations ?S st)
          = staccatoLoop L (filter isStaccato ?xs) (withArticulations ?S st)"
    by (subst staccatoLoop_filter) (simp only: f)
  also have "\<dots> = staccatoLoop L ?xs (withArticulations ?S st)"
    by (rule staccatoLoop_filter [symmetric])
  also have "\<dots> = (e, withArticulations ?S st1)"
    by (simp add: wa_staccatoLoop s)
  finally have s': "staccatoLoop L ?S (withArticulations ?S st) = (e, withArticulations ?S st1)" .
  from wt_staccatoLoop [of L ?xs st] s
  have "withoutTrace (st_note st1) = withoutTrace (st_note st)" by simp
  then have a1: "articulations (st_note st1) = ?xs" by (metis articulations_withoutTrace)
  have art: "articulations (st_note (withArticulations ?S st)) = ?S"
    by (simp add: withArticulations_def)
  show ?thesis
  proof (cases e)
    case None
    with False ne s s' art a1 show ?thesis
      by (simp add: noteArticulations_def Let_def sorted_sort_id withArticulations_def)
  next
    case (Some x)
    with False ne s s' art show ?thesis
      by (simp add: noteArticulations_def)
  qed
qed

lemma getattr_flag_articulations:
  "getattr_flag (n\<lparr> articulations := S \<rparr>) k = getattr_flag n k"
  by (simp add: getattr_flag_def)

lemma setBeamStatus_articulations:
  "setBeamStatus bs (n\<lparr> articulations := S \<rparr>) = setBeamStatus bs n"
  by (simp only: setBeamStatus_def getattr_flag_articulations)

lemma sorted_note:
  assumes f: "filter isStaccato (sort_key (\<lambda>a. a) (articulations n)) = filter isStaccato (articulations n)"
  shows "fst (noteToBrailleState L bs (n\<lparr> articulations := sort_key (\<lambda>a. a) (articulations n) \<rparr>) so uf)
           = fst (noteToBrailleState L bs n so uf)"
proof -
  let ?S = "sort_key (\<lambda>a. a) (articulations n)"
  let ?st0 = "\<lparr> st_note = n\<lparr> brailleEnglish := Some [] \<rparr>, st_beam = setBeamStatus bs n,
                st_trans = [] \<rparr>"
  let ?st2 = "noteTriplet L (noteOpeningSlurs L ?st0)"
  have init: "\<lparr> st_note = n\<lparr> articulations := ?S \<rparr>\<lparr> brailleEnglish := Some [] \<rparr>,
               st_beam = setBeamStatus bs (n\<lparr> articulations := ?S \<rparr>), st_trans = [] \<rparr>
             = withArticulations ?S ?st0"
    by (simp add: withArticulations_def setBeamStatus_articulations)
  have "withoutTrace (st_note ?st2) = withoutTrace n" by simp
  then have a2: "articulations (st_note ?st2) = articulations n"
    by (metis articulations_withoutTrace)
  from sorted_articulations [of ?st2 L] f a2
  have art: "fst (noteArticulations L (withArticulations ?S ?st2)) = fst (noteArticulations L ?st2)"
      "fst (noteArticulations L ?st2) = None \<Longrightarrow>
         snd (noteArticulations L (withArticulations ?S ?st2)) = snd (noteArticulations L ?st2)"
    by simp_all
  obtain e st3 where a: "noteArticulations L ?st2 = (e, st3)" by (cases "noteArticulations L ?st2")
  obtain e' st3' where a': "noteArticulations L (withArticulations ?S ?st2) = (e', st3')"
    by (cases "noteArticulations L (withArticulations ?S ?st2)")
  from art a a' have e: "e' = e" and st: "e = None \<Longrightarrow> st3' = st3" by simp_all
  have l: "fst (noteToBrailleState L bs (n\<lparr> articulations := ?S \<rparr>) so uf)
         = fst (case noteArticulations L (withArticulations ?S ?st2) of
                  (Some e, st3) \<Rightarrow> (Inl e, st3)
                | (None, st3) \<Rightarrow>
                    (let st4 = noteAccidental L st3;
                         st5 = noteOctave L so st4
                     in case noteNameDuration L st5 of
                          (Some r, st6) \<Rightarrow> (r, st6)
                        | (None, st6) \<Rightarrow>
                            (let st7 = noteFingering L uf st6;
                                 st8 = noteClosingSlurs L st7;
                                 st9 = noteTie L st8
                             in (Inr (concat (st_trans st9)), st9))))"
    unfolding noteToBrailleState_def Let_def init wa_openingSlurs wa_triplet ..
  show ?thesis
  proof (cases e)
    case None
    with st have "st3' = st3" by simp
    with None a a' e l show ?thesis by (simp add: noteToBrailleState_def Let_def)
  next
    case (Some x)
    with a a' e l show ?thesis by (simp add: noteToBrailleState_def Let_def)
  qed
qed

lemma repeated_call:
  assumes f: "filter isStaccato (sort_key (\<lambda>a. a) (articulations n)) = filter isStaccato (articulations n)"
  shows "fst (noteToBraille L bs' (fst (snd (noteToBraille L firstBs n so1 firstUpperFirst))) so uf)
           = fst (noteToBraille L bs n so uf)"
proof -
  let ?n1 = "fst (snd (noteToBraille L firstBs n so1 firstUpperFirst))"
  let ?A = "articulationsAfter L n"
  have "withoutTrace ?n1 = withoutTrace (n\<lparr> articulations := ?A \<rparr>)"
    by (simp add: note_left withoutTrace_articulations)
  then have n1: "?n1 = (n\<lparr> articulations := ?A \<rparr>)\<lparr> brailleEnglish := brailleEnglish ?n1 \<rparr>"
    by (rule withoutTrace_eqD)
  have "fst (noteToBraille L bs' ?n1 so uf) = fst (noteToBraille L bs (n\<lparr> articulations := ?A \<rparr>) so uf)"
    by (subst n1) (rule noteToBraille_independent [symmetric])
  also have "\<dots> = fst (noteToBraille L bs n so uf)"
  proof (cases "staccatoFails L n")
    case True
    then show ?thesis by (simp add: articulationsAfter_def)
  next
    case False
    have "fst (noteToBraille L bs m so uf) = fst (noteToBrailleState L bs m so uf)" for m
      by (cases "noteToBrailleState L bs m so uf") (simp add: noteToBraille_def)
    with False sorted_note [OF f, of L bs so uf] show ?thesis
      by (simp add: articulationsAfter_def)
  qed
  finally show ?thesis .
qed

text \<open>
  C10.  What holds of every note and every table.  The string \<open>noteToBraille\<close> returns
  does not depend on what \<open>beamStatus\<close> holds when the call starts, nor on the trace
  attached to the note: all seven entries are overwritten from the attributes of the note before
  any is read.  And when sorting the articulations by name leaves the staccato and staccatissimo
  marks in the order they had, a call on the note as an earlier call left it (with any arguments,
  and whatever \<open>beamStatus\<close> holds by then) returns the same string as a call on the note
  itself.
\<close>

theorem noteToBraille_repeated_call:
  "fst (noteToBraille L bs' (n\<lparr> brailleEnglish := t \<rparr>) showOctave uf)
     = fst (noteToBraille L bs n showOctave uf)
   \<and> (filter isStaccato (sort_key (\<lambda>a. a) (articulations n)) = filter isStaccato (articulations n)
        \<longrightarrow> fst (noteToBraille L bs' (fst (snd (noteToBraille L firstBs n firstShowOctave firstUpperFirst))) showOctave uf)
              = fst (noteToBraille L bs n showOctave uf))"
  using noteToBraille_independent [of L bs n showOctave uf bs' t]
        repeated_call [of n L bs' firstBs firstShowOctave firstUpperFirst showOctave uf bs]
  by simp

text \<open>
  The note of the example above declares tenuto, staccato, accent: the second call, on the note
  and the \<open>beamStatus\<close> the first call left, returns the string of the first.
\<close>

theorem noteToBraille_repeated_call_witness:
  "filter isStaccato (sort_key (\<lambda>a. a) (articulations tripletNote))
     = filter isStaccato (articulations tripletNote)
   \<and> fst (noteToBraille sample_tables
            (snd (snd (noteToBraille sample_tables Map.empty tripletNote True True)))
            (fst (snd (noteToBraille sample_tables Map.empty tripletNote True True))) True True)
      = Inr [0x2806, 0x2826, 0x2828, 0x2826, 0x2838, 0x2826, 0x2829, 0x2810, 0x2819]"
proof -
  have h: "filter isStaccato (sort_key (\<lambda>a. a) (articulations tripletNote))
             = filter isStaccato (articulations tripletNote)"
    by (simp add: tripletNote_def plainNote_def isStaccato_def)
  from noteToBraille_repeated_call [where L = sample_tables and n = tripletNote
          and bs' = "snd (snd (noteToBraille sample_tables Map.empty tripletNote True True))"
          and firstBs = Map.empty and firstShowOctave = True and firstUpperFirst = True and showOctave = True
          and uf = True and bs = Map.empty and t = None] h tripletNote_braille
  show ?thesis by simp
qed

lemmas note_eval = noteToBraille_def noteToBrailleState_def plainNote_def Let_def
      noteOpeningSlurs_def noteTriplet_def noteArticulations_def noteAccidental_def noteOctave_def
      noteNameDuration_def noteFingering_def noteClosingSlurs_def noteTie_def flag_def emit_def
      setBeamStatus_def falseKeywords_def getattr_flag_def isStaccato_def
      sample_beforeNoteExpr sample_accidentals sample_pitchNameToNotes_C sample_sym sample_symbols_def
      sample_octaves trace_append_def

text \<open>
  C10 fails on the code: two calls on the same note need not return the same string.  The first
  call sorts the articulations of the note in place, so for a note that declares staccato
  before staccatissimo the second call emits the two marks in the other order.
\<close>

theorem noteToBraille_second_call_counterexample:
  "fst (noteToBraille sample_tables Map.empty twoStaccatos True True)
      = Inr [0x2826, 0x2820, 0x2826, 0x2810, 0x2839]
   \<and> fst (noteToBraille sample_tables
            (snd (snd (noteToBraille sample_tables Map.empty twoStaccatos True True)))
            (fst (snd (noteToBraille sample_tables Map.empty twoStaccatos True True))) True True)
      = Inr [0x2820, 0x2826, 0x2826, 0x2810, 0x2839]"
  by (simp add: note_eval twoStaccatos_def mkPitch_def quarter_def)

subsection \<open>C5: intervals of a ninth and more in a chord\<close>

lemma chordInterval_marks:
  "chordInterval L k (tr, ch) = (e, tr', ch') \<Longrightarrow>
     (case getitem (intervals L) k of
        Inl x \<Rightarrow> e = Some x
      | Inr g \<Rightarrow> e = None \<and> tr' = tr @ [g])"
  by (auto simp: chordInterval_def getitem_def split: option.splits)

lemma chordOctave_marks:
  "chordOctave L p (tr, ch) = (e, tr', ch') \<Longrightarrow>
     (case octaveMark L p of
        Inl x \<Rightarrow> e = Some x
      | Inr g \<Rightarrow> e = None \<and> tr' = tr @ [g])"
  by (auto simp: chordOctave_def octaveMark_def getitem_def split: option.splits)

lemma chordOctaveInterval_marks:
  assumes "(case chordOctave L p (tr, ch) of
              (Some e, acc') \<Rightarrow> (Some e, acc')
            | (None, acc') \<Rightarrow> chordInterval L k acc') = (e, tr', ch')"
  shows "(case octaveMark L p of
            Inl x \<Rightarrow> e = Some x
          | Inr og \<Rightarrow>
              (case getitem (intervals L) k of
                 Inl x \<Rightarrow> e = Some x
               | Inr ig \<Rightarrow> e = None \<and> tr' = tr @ [og, ig]))"
proof -
  obtain e1 tr1 ch1 where o: "chordOctave L p (tr, ch) = (e1, tr1, ch1)"
    by (cases "chordOctave L p (tr, ch)") auto
  show ?thesis
  proof (cases e1)
    case None
    with assms o have i: "chordInterval L k (tr1, ch1) = (e, tr', ch')" by simp
    from chordOctave_marks [OF o] None chordInterval_marks [OF i] show ?thesis
      by (auto split: sum.splits)
  next
    case (Some x)
    with assms o have "e = Some x" by simp
    with chordOctave_marks [OF o] Some show ?thesis by (auto split: sum.splits)
  qed
qed

lemma chordPitchStep_marks:
  assumes "chordPitchStep L H pl i (tr, ch) = (e, tr', ch')"
  shows "(case intervalMarks L H pl i of
            Inl x \<Rightarrow> e = Some x
          | Inr ms \<Rightarrow> e = None \<and> tr' = tr @ ms)"
proof -
  define dist where "dist = genericUndirected H (pl ! 0) (pl ! i)"
  define rel where "rel = genericUndirected H (pl ! (i - 1)) (pl ! i)"
  show ?thesis
  proof (cases "dist \<ge> 9")
    case far: True
    then have gt: "dist > 8" by simp
    show ?thesis
    proof (cases "i = 1 \<or> rel \<ge> 8")
      case True
      with gt assms
      have "(case chordOctave L (pl ! i) (tr, ch) of
               (Some e, acc') \<Rightarrow> (Some e, acc')
             | (None, acc') \<Rightarrow> chordInterval L (dist mod 8 + 1) acc') = (e, tr', ch')"
        unfolding chordPitchStep_def Let_def dist_def [symmetric] rel_def [symmetric]
        by (auto split: if_splits)
      from chordOctaveInterval_marks [OF this] far True show ?thesis
        unfolding intervalMarks_def Let_def dist_def [symmetric] rel_def [symmetric]
        by (auto split: sum.splits)
    next
      case False
      with gt assms have "chordInterval L (dist mod 8 + 1) (tr, ch) = (e, tr', ch')"
        unfolding chordPitchStep_def Let_def dist_def [symmetric] rel_def [symmetric]
        by (auto split: if_splits)
      from chordInterval_marks [OF this] far False show ?thesis
        unfolding intervalMarks_def Let_def dist_def [symmetric] rel_def [symmetric]
        by (auto split: sum.splits)
    qed
  next
    case False
    then have "\<not> dist > 8" by simp
    with assms have "chordInterval L dist (tr, ch) = (e, tr', ch')"
      unfolding chordPitchStep_def Let_def dist_def [symmetric] rel_def [symmetric]
      by simp
    from chordInterval_marks [OF this] False show ?thesis
      unfolding intervalMarks_def Let_def dist_def [symmetric] rel_def [symmetric]
      by (auto split: sum.splits)
  qed
qed

lemma chordLoop_marks:
  "chordLoop L H pl idxs (tr, ch) = (e, tr', ch') \<Longrightarrow>
     (case mapE (intervalMarks L H pl) idxs of
        Inl x \<Rightarrow> e = Some x
      | Inr mss \<Rightarrow> e = None \<and> tr' = tr @ concat mss)"
proof (induction idxs arbitrary: tr ch)
  case Nil
  then show ?case by simp
next
  case (Cons i idxs)
  obtain e1 tr1 ch1 where s: "chordPitchStep L H pl i (tr, ch) = (e1, tr1, ch1)"
    by (cases "chordPitchStep L H pl i (tr, ch)") auto
  show ?case
  proof (cases e1)
    case None
    with Cons.prems s have l: "chordLoop L H pl idxs (tr1, ch1) = (e, tr', ch')" by simp
    from chordPitchStep_marks [OF s] None obtain ms where
      m: "intervalMarks L H pl i = Inr ms" and t1: "tr1 = tr @ ms"
      by (cases "intervalMarks L H pl i") auto
    from Cons.IH [OF l] m t1 show ?thesis by (auto split: sum.splits)
  next
    case (Some x)
    with Cons.prems s have "e = Some x" by simp
    with chordPitchStep_marks [OF s] Some show ?thesis by (auto split: sum.splits)
  qed
qed

lemma chordToBraille_marks:
  assumes pitches: "allPitches = (if descending then rev (sort_key (ps H) (map pitch (chord_notes c)))
                                  else sort_key (ps H) (map pitch (chord_notes c)))"
      and nonempty: "allPitches \<noteq> []"
      and base: "fst (noteToBraille L bs (plainNote (allPitches ! 0)
                        ((chord_duration c)\<lparr> isGrace := False \<rparr>)) showOctave True) = Inr brailleNote"
      and known: "brailleNote \<noteq> sym_basic_exception (symbols L)"
  shows "fst (chordToBraille L H bs c descending showOctave)
           = (case mapE (intervalMarks L H allPitches) [1..<length allPitches] of
                Inl e \<Rightarrow> Inl e
              | Inr marks \<Rightarrow> Inr (brailleNote @ concat (concat marks)))"
proof -
  let ?init = "plainNote (allPitches ! 0) ((chord_duration c)\<lparr> isGrace := False \<rparr>)"
  obtain n' bs' where nb: "noteToBraille L bs ?init showOctave True = (Inr brailleNote, n', bs')"
    using base by (cases "noteToBraille L bs ?init showOctave True") auto
  let ?acc = "([brailleNote],
               trace_append [(''{0} Chord:'' @ [CHR 0x0A] @ ''{1}'',
                    [TStr (if descending then ''Descending'' else ''Ascending''),
                     TEntries (case brailleEnglish n' of None \<Rightarrow> [] | Some t \<Rightarrow> t)])]
                 (c\<lparr> brailleEnglish := Some [] \<rparr>))"
  obtain e tr ch where lp: "chordLoop L H allPitches [1..<length allPitches] ?acc = (e, tr, ch)"
    by (cases "chordLoop L H allPitches [1..<length allPitches] ?acc") auto
  have "chordToBraille L H bs c descending showOctave
          = (case chordLoop L H allPitches [1..<length allPitches] ?acc of
               (Some e, chordTrans, ch) \<Rightarrow> (Inl e, ch, bs')
             | (None, chordTrans, ch) \<Rightarrow> (Inr (concat chordTrans), ch, bs'))"
    unfolding chordToBraille_def Let_def pitches [symmetric]
    using nonempty nb known by simp
  then have r: "fst (chordToBraille L H bs c descending showOctave)
                  = (case e of Some x \<Rightarrow> Inl x | None \<Rightarrow> Inr (concat tr))"
    unfolding lp by (cases e) simp_all
  from chordLoop_marks [OF lp] show ?thesis
    unfolding r by (auto split: sum.splits)
qed

text \<open>
  C5.  \<open>chordToBraille\<close>, once the base note is encoded: the string returned is the
  braille of the base note followed by the marks of every other pitch, in order, each as C5 words
  them (\<open>intervalMarks\<close>); the call raises \<open>KeyError\<close> at the first pitch one of whose
  signs a table does not hold.
\<close>

theorem chordToBraille_intervals:
  assumes pitches: "allPitches = (if descending then rev (sort_key (ps H) (map pitch (chord_notes c)))
                                  else sort_key (ps H) (map pitch (chord_notes c)))"
      and nonempty: "allPitches \<noteq> []"
      and base: "fst (noteToBraille L bs (plainNote (allPitches ! 0)
                        ((chord_duration c)\<lparr> isGrace := False \<rparr>)) showOctave True) = Inr brailleNote"
      and known: "brailleNote \<noteq> sym_basic_exception (symbols L)"
  shows "fst (chordToBraille L H bs c descending showOctave)
           = (case mapE (intervalMarks L H allPitches) [1..<length allPitches] of
                Inl e \<Rightarrow> Inl e
              | Inr marks \<Rightarrow> Inr (brailleNote @ concat (concat marks)))"
  using assms by (rule chordToBraille_marks)

lemma sample_pitchNameToNotes_G:
  "pitchNameToNotes sample_tables ''G''
     = Some (map_of [(''eighth'', [0x2813]), (''quarter'', [0x2833]), (''half'', [0x2817]), (''whole'', [0x2837])])"
  by (simp add: sample_tables_def)

lemma sample_ps:
  "ps sample_host (mkPitch s k) = 12 * (k + 1) + stepSemitones s"
  by (simp add: sample_host_def mkPitch_def implicitOctave_def accidentalAlter_def)

lemma stepSemitones_simps:
  "stepSemitones ''C'' = 0" "stepSemitones ''D'' = 2" "stepSemitones ''E'' = 4"
  "stepSemitones ''F'' = 5" "stepSemitones ''G'' = 7" "stepSemitones ''A'' = 9"
  "stepSemitones ''B'' = 11"
  by (simp_all add: stepSemitones_def)

lemma base_note_samples:
  "fst (noteToBraille sample_tables bs (plainNote (mkPitch ''G'' 2) (whole\<lparr> isGrace := False \<rparr>)) True True)
     = Inr [0x2818, 0x2837]"
  "fst (noteToBraille sample_tables bs (plainNote (mkPitch ''C'' 6) (whole\<lparr> isGrace := False \<rparr>)) True True)
     = Inr [0x2830, 0x283D]"
  "fst (noteToBraille sample_tables bs (plainNote (mkPitch ''C'' 4) (whole\<lparr> isGrace := False \<rparr>)) True True)
     = Inr [0x2810, 0x283D]"
  by (simp_all add: note_eval sample_pitchNameToNotes_G mkPitch_def whole_def)

lemma sorted_samples:
  "sort_key (ps sample_host) (map pitch (chord_notes (mkChord [mkPitch ''G'' 2, mkPitch ''E'' 3, mkPitch ''E'' 4] whole)))
     = [mkPitch ''G'' 2, mkPitch ''E'' 3, mkPitch ''E'' 4]"
  "sort_key (ps sample_host) (map pitch (chord_notes (mkChord [mkPitch ''C'' 6, mkPitch ''E'' 5, mkPitch ''B'' 4] whole)))
     = [mkPitch ''B'' 4, mkPitch ''E'' 5, mkPitch ''C'' 6]"
  "sort_key (ps sample_host) (map pitch (chord_notes (mkChord [mkPitch ''C'' 4, mkPitch ''D'' 6] whole)))
     = [mkPitch ''C'' 4, mkPitch ''D'' 6]"
  by (simp_all add: mkChord_def plainNote_def sample_ps stepSemitones_simps)

lemma chord_duration_sample: "chord_duration (mkChord pl d) = d"
  by (simp add: mkChord_def)

lemma octave_mkPitch: "octave (mkPitch s k) = Some k"
  by (simp add: mkPitch_def)

lemma indices_samples: "[1..<length [a, b, c]] = [1, 2]" "[1..<length [a, b]] = [1]"
  by (simp_all add: upt_conv_Cons)

lemma intervalMarks_samples:
  "intervalMarks sample_tables sample_host [mkPitch ''G'' 2, mkPitch ''E'' 3, mkPitch ''E'' 4] 1
     = Inr [[0x2834]]"
  "intervalMarks sample_tables sample_host [mkPitch ''G'' 2, mkPitch ''E'' 3, mkPitch ''E'' 4] 2
     = Inr [[0x2810], [0x2834]]"
  "intervalMarks sample_tables sample_host [mkPitch ''C'' 6, mkPitch ''E'' 5, mkPitch ''B'' 4] 1
     = Inr [[0x2834]]"
  "intervalMarks sample_tables sample_host [mkPitch ''C'' 6, mkPitch ''E'' 5, mkPitch ''B'' 4] 2
     = Inr [[0x280C]]"
  "intervalMarks sample_tables sample_host [mkPitch ''C'' 4, mkPitch ''D'' 6] 1 = Inl KeyError"
  by (simp_all add: intervalMarks_def octaveMark_def getitem_def Let_def sample_generic
      stepNum_simps sample_intervals sample_octaves octave_mkPitch)

text \<open>
  The doctest chords G2 E3 E4 (ascending: a sixth, then a thirteenth that is an octave above
  E3, so octave mark and sixth) and C6 E5 B4 (descending: a sixth, then a ninth that is a fourth
  below E5, so a second and no octave mark).
\<close>

theorem chordToBraille_intervals_witness:
  "fst (chordToBraille sample_tables sample_host Map.empty
          (mkChord [mkPitch ''G'' 2, mkPitch ''E'' 3, mkPitch ''E'' 4] whole) False True)
     = Inr [0x2818, 0x2837, 0x2834, 0x2810, 0x2834]
   \<and> fst (chordToBraille sample_tables sample_host Map.empty
          (mkChord [mkPitch ''C'' 6, mkPitch ''E'' 5, mkPitch ''B'' 4] whole) True True)
     = Inr [0x2830, 0x283D, 0x2834, 0x280C]"
proof
  let ?p = "[mkPitch ''G'' 2, mkPitch ''E'' 3, mkPitch ''E'' 4]"
  have m: "mapE (intervalMarks sample_tables sample_host ?p) [1..<length ?p]
             = Inr [[[0x2834]], [[0x2810], [0x2834]]]"
    by (simp only: indices_samples mapE.simps intervalMarks_samples sum.case)
  have h: "?p = (if False then rev (sort_key (ps sample_host) (map pitch (chord_notes (mkChord ?p whole))))
                 else sort_key (ps sample_host) (map pitch (chord_notes (mkChord ?p whole))))"
      "?p \<noteq> []"
      "fst (noteToBraille sample_tables Map.empty
              (plainNote (?p ! 0) ((chord_duration (mkChord ?p whole))\<lparr> isGrace := False \<rparr>)) True True)
         = Inr [0x2818, 0x2837]"
      "[0x2818, 0x2837] \<noteq> sym_basic_exception (symbols sample_tables)"
    by (simp_all add: sorted_samples chord_duration_sample base_note_samples sample_sym
        sample_symbols_def)
  from chordToBraille_intervals [OF h, unfolded m]
  show "fst (chordToBraille sample_tables sample_host Map.empty (mkChord ?p whole) False True)
          = Inr [0x2818, 0x2837, 0x2834, 0x2810, 0x2834]"
    by simp
next
  let ?c = "[mkPitch ''C'' 6, mkPitch ''E'' 5, mkPitch ''B'' 4]"
  have m: "mapE (intervalMarks sample_tables sample_host ?c) [1..<length ?c]
             = Inr [[[0x2834]], [[0x280C]]]"
    by (simp only: indices_samples mapE.simps intervalMarks_samples sum.case)
  have h: "?c = (if True then rev (sort_key (ps sample_host) (map pitch (chord_notes (mkChord ?c whole))))
                 else sort_key (ps sample_host) (map pitch (chord_notes (mkChord ?c whole))))"
      "?c \<noteq> []"
      "fst (noteToBraille sample_tables Map.empty
              (plainNote (?c ! 0) ((chord_duration (mkChord ?c whole))\<lparr> isGrace := False \<rparr>)) True True)
         = Inr [0x2830, 0x283D]"
      "[0x2830, 0x283D] \<noteq> sym_basic_exception (symbols sample_tables)"
    by (simp_all add: sorted_samples chord_duration_sample base_note_samples sample_sym
        sample_symbols_def)
  from chordToBraille_intervals [OF h, unfolded m]
  show "fst (chordToBraille sample_tables sample_host Map.empty (mkChord ?c whole) True True)
          = Inr [0x2830, 0x283D, 0x2834, 0x280C]"
    by simp
qed

text \<open>
  C5 fails on the code.  In the chord C4 D6 the interval of D6 from the base pitch is 16, which
  folds to \<open>16 mod 8 + 1 = 1\<close>; the table of interval signs starts at the second, so the
  lookup raises \<open>KeyError\<close> and no string is returned.
\<close>

theorem chordToBraille_sixteenth_counterexample:
  "genericUndirected sample_host (mkPitch ''C'' 4) (mkPitch ''D'' 6) = 16
   \<and> intervals sample_tables (16 mod 8 + 1) = None
   \<and> fst (chordToBraille sample_tables sample_host Map.empty
            (mkChord [mkPitch ''C'' 4, mkPitch ''D'' 6] whole) False True) = Inl KeyError"
proof (intro conjI)
  let ?p = "[mkPitch ''C'' 4, mkPitch ''D'' 6]"
  have m: "mapE (intervalMarks sample_tables sample_host ?p) [1..<length ?p] = Inl KeyError"
    by (simp only: indices_samples mapE.simps intervalMarks_samples sum.case)
  have h: "?p = (if False then rev (sort_key (ps sample_host) (map pitch (chord_notes (mkChord ?p whole))))
                 else sort_key (ps sample_host) (map pitch (chord_notes (mkChord ?p whole))))"
      "?p \<noteq> []"
      "fst (noteToBraille sample_tables Map.empty
              (plainNote (?p ! 0) ((chord_duration (mkChord ?p whole))\<lparr> isGrace := False \<rparr>)) True True)
         = Inr [0x2810, 0x283D]"
      "[0x2810, 0x283D] \<noteq> sym_basic_exception (symbols sample_tables)"
    by (simp_all add: sorted_samples chord_duration_sample base_note_samples sample_sym
        sample_symbols_def)
  from chordToBraille_marks [OF h, unfolded m]
  show "fst (chordToBraille sample_tables sample_host Map.empty (mkChord ?p whole) False True)
          = Inl KeyError"
    by simp
qed (simp_all add: sample_generic stepNum_simps sample_intervals)

subsection \<open>C3: exceptions that leave the grouping encoder\<close>

declare transcribeNoteGrouping.simps [simp del]

lemma forte_braille:
  "\<exists>b t. dynamicToBraille L forte True = (Inr b, forte\<lparr> brailleEnglish := t \<rparr>)"
proof -
  have "isupper CHR ''f'' = False" by (simp add: isupper_def)
  then show ?thesis
    by (cases "alphabet L CHR ''f''")
       (auto simp: dynamicToBraille_def wordToBraille_def letterToBraille_def forte_def Let_def
             trace_append_def)
qed


lemma noClef_braille: "\<exists>t. clefToBraille L noClef False = ([], noClef\<lparr> brailleEnglish := t \<rparr>)"
  by (simp add: clefToBraille_def noClef_def)

lemma transcribeNoteGrouping_raise:
  "fst (groupingTry L H bs g slo) = Some e \<Longrightarrow> e \<noteq> AttributeError
     \<Longrightarrow> fst (transcribeNoteGrouping L H bs g slo) = Inl e"
  by (simp add: transcribeNoteGrouping.simps [of L H bs g slo] Let_def)


lemma transcribeNoteGrouping_retry:
  "fst (groupingTry L H bs g slo) = Some AttributeError
     \<Longrightarrow> transcribeNoteGrouping L H bs g slo
          = transcribeNoteGrouping L H (g_beam (fst (snd (groupingTry L H bs g slo))))
              (withDefaults (visitedGrouping g (groupingTry L H bs g slo)))
              (g_showLeadingOctave (fst (snd (groupingTry L H bs g slo))))"
  by (simp add: transcribeNoteGrouping.simps [of L H bs g slo] Let_def)

text \<open>
  C3 fails on the code.  A dynamic followed by a shown \<open>NoClef\<close>: the clef contributes the
  empty string, and the dot rule reads the first character of that string.  A chord without
  notes: its base note is \<open>allNotes[-1]\<close>.  Both groupings leave \<open>transcribeNoteGrouping\<close>
  by an \<open>IndexError\<close>, whatever the tables, no string is returned and the elements after the
  failing one are not encoded.
\<close>

theorem transcribeNoteGrouping_raises:
  "fst (transcribeNoteGrouping L H bs dynamicThenNoClef showLeadingOctave) = Inl IndexError
   \<and> fst (transcribeNoteGrouping L H bs emptyChordGrouping showLeadingOctave) = Inl IndexError"
proof
  obtain b t where d: "dynamicToBraille L forte True = (Inr b, forte\<lparr> brailleEnglish := t \<rparr>)"
    using forte_braille by blast
  obtain u where c: "clefToBraille L noClef False = ([], noClef\<lparr> brailleEnglish := u \<rparr>)"
    using noClef_braille by blast
  have "fst (groupingTry L H bs dynamicThenNoClef showLeadingOctave) = Some IndexError"
    by (simp add: groupingTry_def dynamicThenNoClef_def groupingStep_def getattr_def
        encodeElement_def d c dotRule_def insertDot3_def isDynamic_def isClef_def
        isTextExpression_def Let_def)
  then show "fst (transcribeNoteGrouping L H bs dynamicThenNoClef showLeadingOctave) = Inl IndexError"
    by (rule transcribeNoteGrouping_raise) simp
next
  let ?r = "groupingTry L H bs emptyChordGrouping showLeadingOctave"
  have r1: "fst ?r = Some AttributeError"
    by (simp add: groupingTry_def emptyChordGrouping_def groupingStep_def getattr_def)
  define g' where "g' = withDefaults (visitedGrouping emptyChordGrouping ?r)"
  have g': "g' = \<lparr> elements = [EChord (mkChord [] whole)], descendingChords = Some True,
                    showClefSigns = Some False, upperFirstInNoteFingering = Some True \<rparr>"
    by (simp add: g'_def withDefaults_def visitedGrouping_def groupingTry_def
        emptyChordGrouping_def groupingStep_def getattr_def)
  have r2: "fst (groupingTry L H bs2 g' slo) = Some IndexError" for bs2 slo
    by (simp add: g' groupingTry_def groupingStep_def getattr_def encodeElement_def mkChord_def Let_def)
  have "fst (transcribeNoteGrouping L H bs2 g' slo) = Inl IndexError" for bs2 slo
    using r2 [of bs2 slo] by (rule transcribeNoteGrouping_raise) simp
  then show "fst (transcribeNoteGrouping L H bs emptyChordGrouping showLeadingOctave) = Inl IndexError"
    unfolding transcribeNoteGrouping_retry [OF r1] g'_def [symmetric] .
qed

subsection \<open>C8: the dot rule between elements\<close>








lemma sample_rests:
  "rests sample_tables = map_of [(''whole'', [0x280D]), (''half'', [0x2825]), (''quarter'', [0x2827]),
                      (''eighth'', [0x282D])]"
  by (simp only: sample_tables_def tables.simps)








lemma quarterRest_sample:
  "fst (restToBraille sample_tables quarterRest) = [0x2827]"
  by (simp add: restToBraille_def quarterRest_def quarter_def sample_rests Let_def)






subsection \<open>C9: what an encoder changes on the object it is given\<close>

lemma barline_left: "withoutTrace (snd (barlineToBraille L b)) = withoutTrace b"
  by (simp add: barlineToBraille_def split: option.splits)

lemma clef_left: "withoutTrace (snd (clefToBraille L c cs)) = withoutTrace c"
  by (simp add: clefToBraille_def Let_def split: option.splits)

lemma dynamic_left: "withoutTrace (snd (dynamicToBraille L d p)) = withoutTrace d"
  by (simp add: dynamicToBraille_def Let_def split: sum.splits error.splits)

lemma keySig_left: "withoutTrace (snd (keySigToBraille L ks out)) = withoutTrace ks"
  by (simp only: keySigToBraille_def Let_def snd_conv withoutTrace_append withoutTrace_insert0
      withoutTrace_upd if_cancel simp_thms split: option.split if_split)

lemma rest_left: "withoutTrace (snd (restToBraille L r)) = withoutTrace r"
  by (simp add: restToBraille_def Let_def split: option.splits)

lemma textExpression_left: "withoutTrace (snd (textExpressionToBraille L t p)) = withoutTrace t"
  by (simp add: textExpressionToBraille_def Let_def split: option.splits sum.splits error.splits)

lemma timeSig_left: "withoutTrace (snd (timeSigToBraille L t)) = withoutTrace t"
  by (simp add: timeSigToBraille_def Let_def split: option.splits sum.splits prod.splits)

lemma chordInterval_left:
  "withoutTrace (snd (snd (chordInterval L d acc))) = withoutTrace (snd acc)"
  by (simp add: chordInterval_def split: prod.splits option.splits)

lemma chordOctave_left:
  "withoutTrace (snd (snd (chordOctave L p acc))) = withoutTrace (snd acc)"
  by (simp add: chordOctave_def split: prod.splits option.splits)

lemma chordOctaveInterval_left:
  "withoutTrace (snd (snd (case chordOctave L p acc of
                   (Some e, acc') \<Rightarrow> (Some e, acc')
                 | (None, acc') \<Rightarrow> chordInterval L d acc'))) = withoutTrace (snd acc)"
proof -
  obtain err acc' where r: "chordOctave L p acc = (err, acc')"
    by (cases "chordOctave L p acc") auto
  with chordOctave_left [of L p acc] have "withoutTrace (snd acc') = withoutTrace (snd acc)"
    by simp
  with r chordInterval_left [of L d acc'] show ?thesis
    by (cases err) simp_all
qed

lemma chordPitchStep_left:
  "withoutTrace (snd (snd (chordPitchStep L H pl i acc))) = withoutTrace (snd acc)"
  unfolding chordPitchStep_def Let_def
  by (simp only: chordOctaveInterval_left chordInterval_left
      if_distrib [of "\<lambda>x. withoutTrace (snd (snd x))"] if_cancel)

lemma chordLoop_left:
  "withoutTrace (snd (snd (chordLoop L H pl idxs acc))) = withoutTrace (snd acc)"
proof (induction idxs arbitrary: acc)
  case Nil
  show ?case by simp
next
  case (Cons i idxs)
  show ?case
  proof -
    obtain err acc' where r: "chordPitchStep L H pl i acc = (err, acc')"
      by (cases "chordPitchStep L H pl i acc") auto
    with chordPitchStep_left [of L H pl i acc]
    have "withoutTrace (snd acc') = withoutTrace (snd acc)" by simp
    with r Cons [of acc'] show ?thesis by (cases err) simp_all
  qed
qed

lemma chord_left: "withoutTrace (fst (snd (chordToBraille L H bs c d so))) = withoutTrace c"
proof -
  have loop: "withoutTrace (fst (snd (case chordLoop L H pl idxs (tr0, ch0) of
                  (Some e, chordTrans, ch) \<Rightarrow> (Inl e, ch, bs')
                | (None, chordTrans, ch) \<Rightarrow> (Inr (concat chordTrans), ch, bs'))))
              = withoutTrace ch0" for pl idxs tr0 ch0 bs'
  proof -
    obtain e tr ch where r: "chordLoop L H pl idxs (tr0, ch0) = (e, tr, ch)"
      by (cases "chordLoop L H pl idxs (tr0, ch0)") auto
    with chordLoop_left [of L H pl idxs "(tr0, ch0)"] show ?thesis by (cases e) simp_all
  qed
  let ?pl = "if d then rev (sort_key (ps H) (map pitch (chord_notes c)))
             else sort_key (ps H) (map pitch (chord_notes c))"
  obtain r n' bs' where
    nb: "noteToBraille L bs (plainNote (?pl ! 0) ((chord_duration c)\<lparr> isGrace := False \<rparr>)) so True
           = (r, n', bs')"
    by (cases "noteToBraille L bs (plainNote (?pl ! 0) ((chord_duration c)\<lparr> isGrace := False \<rparr>)) so True")
       auto
  show ?thesis
    by (cases r)
       (simp_all only: chordToBraille_def Let_def nb prod.case sum.case loop fst_conv snd_conv
          withoutTrace_append withoutTrace_upd if_cancel simp_thms split: if_split)
qed

text \<open>Every encoder sets the trace anew before it reads anything: the trace it finds is lost.\<close>

lemma trace_reset: "x\<lparr> brailleEnglish := t \<rparr>\<lparr> brailleEnglish := u \<rparr> = x\<lparr> brailleEnglish := u \<rparr>"
  by simp

lemma barline_untraced: "barlineToBraille L (b\<lparr> brailleEnglish := t \<rparr>) = barlineToBraille L b"
proof -
  have f: "bar_style (b\<lparr> brailleEnglish := t \<rparr>) = bar_style b" by simp
  show ?thesis unfolding barlineToBraille_def trace_reset f ..
qed

lemma clef_untraced: "clefToBraille L (c\<lparr> brailleEnglish := t \<rparr>) cs = clefToBraille L c cs"
proof -
  have f: "clef_className (c\<lparr> brailleEnglish := t \<rparr>) = clef_className c"
    "clef_isNoClef (c\<lparr> brailleEnglish := t \<rparr>) = clef_isNoClef c"
    "clef_isTrebleClef (c\<lparr> brailleEnglish := t \<rparr>) = clef_isTrebleClef c"
    "clef_isBassClef (c\<lparr> brailleEnglish := t \<rparr>) = clef_isBassClef c"
    "clef_sign (c\<lparr> brailleEnglish := t \<rparr>) = clef_sign c"
    "clef_line (c\<lparr> brailleEnglish := t \<rparr>) = clef_line c"
    by simp_all
  show ?thesis unfolding clefToBraille_def trace_reset f ..
qed

lemma dynamic_untraced: "dynamicToBraille L (d\<lparr> brailleEnglish := t \<rparr>) p = dynamicToBraille L d p"
proof -
  have f: "dyn_value (d\<lparr> brailleEnglish := t \<rparr>) = dyn_value d" by simp
  show ?thesis unfolding dynamicToBraille_def trace_reset f ..
qed

lemma keySig_untraced: "keySigToBraille L (ks\<lparr> brailleEnglish := t \<rparr>) out = keySigToBraille L ks out"
  unfolding keySigToBraille_def trace_reset ..

lemma rest_untraced: "restToBraille L (r\<lparr> brailleEnglish := t \<rparr>) = restToBraille L r"
proof -
  have f: "rest_duration (r\<lparr> brailleEnglish := t \<rparr>) = rest_duration r" by simp
  show ?thesis unfolding restToBraille_def trace_reset f ..
qed

lemma textExpression_untraced:
  "textExpressionToBraille L (x\<lparr> brailleEnglish := t \<rparr>) p = textExpressionToBraille L x p"
proof -
  have f: "te_content (x\<lparr> brailleEnglish := t \<rparr>) = te_content x" by simp
  show ?thesis unfolding textExpressionToBraille_def trace_reset f ..
qed

lemma timeSig_untraced: "timeSigToBraille L (x\<lparr> brailleEnglish := t \<rparr>) = timeSigToBraille L x"
proof -
  have f: "ts_symbol (x\<lparr> brailleEnglish := t \<rparr>) = ts_symbol x"
    "ts_numerator (x\<lparr> brailleEnglish := t \<rparr>) = ts_numerator x"
    "ts_denominator (x\<lparr> brailleEnglish := t \<rparr>) = ts_denominator x"
    by simp_all
  show ?thesis unfolding timeSigToBraille_def trace_reset f ..
qed

lemma chord_untraced:
  "chordToBraille L H bs (c\<lparr> brailleEnglish := t \<rparr>) d so = chordToBraille L H bs c d so"
proof -
  have f: "chord_notes (c\<lparr> brailleEnglish := t \<rparr>) = chord_notes c"
    "chord_duration (c\<lparr> brailleEnglish := t \<rparr>) = chord_duration c"
    by simp_all
  show ?thesis unfolding chordToBraille_def trace_reset f ..
qed

lemma note_untraced:
  "fst (noteToBraille L bs (withoutTrace n) so uf) = fst (noteToBraille L bs n so uf)"
  unfolding withoutTrace_def by (rule noteToBraille_independent [symmetric])

text \<open>
  C9 fails on the code.  \<open>noteToBraille\<close> sorts the articulations of the note it is given:
  a note that declares tenuto, staccato, accent holds accent, staccato, tenuto after the call.
\<close>

theorem noteToBraille_articulations_counterexample:
  "articulations tripletNote = [''tenuto'', ''staccato'', ''accent'']
   \<and> articulations (fst (snd (noteToBraille sample_tables Map.empty tripletNote True True)))
       = [''accent'', ''staccato'', ''tenuto'']"
  by (simp add: note_eval tripletNote_def)

text \<open>
  C9.  What every encoder leaves of the object it is given, for every table and host.  The
  encoders of a barline, a chord, a clef, a dynamic, a key signature, a rest, a text expression
  and a time signature change nothing but the trace.  \<open>noteToBraille\<close> changes the trace
  and the articulations: it leaves them sorted by name, or as they were when the call raised
  in the first loop over them.  No encoder reads the trace it finds, so the returned braille
  is the same for the object without its trace.
\<close>

theorem encoders_leave:
  "only_trace b (snd (barlineToBraille L b))
   \<and> only_trace c (fst (snd (chordToBraille L H bs c d so)))
   \<and> only_trace cl (snd (clefToBraille L cl cs))
   \<and> only_trace dy (snd (dynamicToBraille L dy p))
   \<and> only_trace ks (snd (keySigToBraille L ks out))
   \<and> only_trace r (snd (restToBraille L r))
   \<and> only_trace te (snd (textExpressionToBraille L te p))
   \<and> only_trace ts (snd (timeSigToBraille L ts))
   \<and> only_trace (n\<lparr> articulations := articulationsAfter L n \<rparr>)
         (fst (snd (noteToBraille L bs n so uf)))
   \<and> fst (barlineToBraille L (withoutTrace b)) = fst (barlineToBraille L b)
   \<and> fst (chordToBraille L H bs (withoutTrace c) d so) = fst (chordToBraille L H bs c d so)
   \<and> fst (clefToBraille L (withoutTrace cl) cs) = fst (clefToBraille L cl cs)
   \<and> fst (dynamicToBraille L (withoutTrace dy) p) = fst (dynamicToBraille L dy p)
   \<and> fst (keySigToBraille L (withoutTrace ks) out) = fst (keySigToBraille L ks out)
   \<and> fst (restToBraille L (withoutTrace r)) = fst (restToBraille L r)
   \<and> fst (textExpressionToBraille L (withoutTrace te) p) = fst (textExpressionToBraille L te p)
   \<and> fst (timeSigToBraille L (withoutTrace ts)) = fst (timeSigToBraille L ts)
   \<and> fst (noteToBraille L bs (withoutTrace n) so uf) = fst (noteToBraille L bs n so uf)"
proof -
  have "only_trace (n\<lparr> articulations := articulationsAfter L n \<rparr>)
          (fst (snd (noteToBraille L bs n so uf)))"
    unfolding only_trace_def by (simp add: note_left withoutTrace_articulations)
  moreover have "fst (barlineToBraille L (withoutTrace b)) = fst (barlineToBraille L b)"
      "fst (chordToBraille L H bs (withoutTrace c) d so) = fst (chordToBraille L H bs c d so)"
      "fst (clefToBraille L (withoutTrace cl) cs) = fst (clefToBraille L cl cs)"
      "fst (dynamicToBraille L (withoutTrace dy) p) = fst (dynamicToBraille L dy p)"
      "fst (keySigToBraille L (withoutTrace ks) out) = fst (keySigToBraille L ks out)"
      "fst (restToBraille L (withoutTrace r)) = fst (restToBraille L r)"
      "fst (textExpressionToBraille L (withoutTrace te) p) = fst (textExpressionToBraille L te p)"
      "fst (timeSigToBraille L (withoutTrace ts)) = fst (timeSigToBraille L ts)"
    unfolding withoutTrace_def
    by (simp_all only: barline_untraced chord_untraced clef_untraced dynamic_untraced
        keySig_untraced rest_untraced textExpression_untraced timeSig_untraced)
  ultimately show ?thesis
    unfolding only_trace_def
    by (simp only: barline_left chord_left clef_left dynamic_left keySig_left rest_left
        textExpression_left timeSig_left note_untraced simp_thms)
qed

text \<open>The note of the counterexample, and the quarter rest.\<close>

theorem encoders_leave_witness:
  "only_trace (tripletNote\<lparr> articulations := [''accent'', ''staccato'', ''tenuto''] \<rparr>)
     (fst (snd (noteToBraille sample_tables Map.empty tripletNote True True)))
   \<and> only_trace quarterRest (snd (restToBraille sample_tables quarterRest))
   \<and> fst (restToBraille sample_tables (withoutTrace quarterRest)) = [0x2827]"
proof -
  have a: "articulationsAfter sample_tables tripletNote = [''accent'', ''staccato'', ''tenuto'']"
    by (simp add: articulationsAfter_def staccatoFails_def tripletNote_def plainNote_def
        isStaccato_def sample_beforeNoteExpr)
  from encoders_leave [where L = sample_tables and n = tripletNote and bs = Map.empty
          and so = True and uf = True and r = quarterRest] a quarterRest_sample
  show ?thesis by simp
qed

end
